theory Spec2Isabelle
  imports Complex_Main
begin

section \<open>The AIB statement parser (golden\_parser\_aib.py)\<close>

text \<open>
  A shallow embedding of \<^verbatim>\<open>src/golden_parser_aib.py\<close>. Every Python function of the
  transaction-extraction core is a HOL function of the same name. A Python exception is
  a value: a function that can raise returns \<open>py_error + 'a\<close>, with \<open>Inl\<close> the exception.

  Scope of the string model. A Python \<^verbatim>\<open>str\<close> is modelled as a \<open>string\<close> holding its
  UTF-8 bytes. The character classes of the Python built-ins (\<^verbatim>\<open>str.strip\<close>,
  \<^verbatim>\<open>str.isdigit\<close>, \<^verbatim>\<open>str.upper\<close>, \<^verbatim>\<open>str.lower\<close>, the regular expression classes
  \<^verbatim>\<open>\d\<close> and \<^verbatim>\<open>\s\<close>, the digits read by \<^verbatim>\<open>float\<close>) are modelled on ASCII: a byte
  above 0x7F is neither white space nor a digit and has no case. The model therefore
  agrees with Python on every text whose non-ASCII characters are of that kind (the
  currency signs that the parser strips are), and says nothing about, for example, a
  no-break space or an Arabic-Indic digit.
\<close>

subsection \<open>Python built-ins: strings\<close>

datatype py_error = IndexError | ValueError | ExternalError

text \<open>White space of \<^verbatim>\<open>str.strip()\<close>, \<^verbatim>\<open>str.isspace()\<close> and the pattern \<^verbatim>\<open>\s\<close>.\<close>

definition is_space :: "char \<Rightarrow> bool" where
  "is_space c = (c \<in> set [CHR 0x20, CHR 0x09, CHR 0x0A, CHR 0x0B, CHR 0x0C, CHR 0x0D,
                            CHR 0x1C, CHR 0x1D, CHR 0x1E, CHR 0x1F])"

definition is_digit :: "char \<Rightarrow> bool" where
  "is_digit c = (c \<in> set ''0123456789'')"

definition lower_char :: "char \<Rightarrow> char" where
  "lower_char c =
     (case map_of (zip ''ABCDEFGHIJKLMNOPQRSTUVWXYZ'' ''abcdefghijklmnopqrstuvwxyz'') c of
        Some l \<Rightarrow> l | None \<Rightarrow> c)"

definition upper_char :: "char \<Rightarrow> char" where
  "upper_char c =
     (case map_of (zip ''abcdefghijklmnopqrstuvwxyz'' ''ABCDEFGHIJKLMNOPQRSTUVWXYZ'') c of
        Some u \<Rightarrow> u | None \<Rightarrow> c)"

definition str_lower :: "string \<Rightarrow> string" where
  "str_lower s = map lower_char s"

definition str_upper :: "string \<Rightarrow> string" where
  "str_upper s = map upper_char s"

text \<open>\<^verbatim>\<open>s.strip()\<close>: white space removed at both ends.\<close>

definition str_strip :: "string \<Rightarrow> string" where
  "str_strip s = rev (dropWhile is_space (rev (dropWhile is_space s)))"

text \<open>\<^verbatim>\<open>s.isdigit()\<close>: at least one character, and all of them digits.\<close>

definition str_isdigit :: "string \<Rightarrow> bool" where
  "str_isdigit s = (s \<noteq> [] \<and> list_all is_digit s)"

text \<open>\<^verbatim>\<open>sep.join(xs)\<close>.\<close>

fun str_join :: "string \<Rightarrow> string list \<Rightarrow> string" where
  "str_join sep [] = []"
| "str_join sep [x] = x"
| "str_join sep (x # y # ys) = x @ sep @ str_join sep (y # ys)"

text \<open>\<^verbatim>\<open>s.startswith(p)\<close>.\<close>

fun startswith :: "string \<Rightarrow> string \<Rightarrow> bool" where
  "startswith s [] = True"
| "startswith [] (p # ps) = False"
| "startswith (c # cs) (p # ps) = (c = p \<and> startswith cs ps)"

text \<open>\<^verbatim>\<open>sub in s\<close>, the substring test.\<close>

fun str_contains :: "string \<Rightarrow> string \<Rightarrow> bool" where
  "str_contains sub [] = (sub = [])"
| "str_contains sub (c # cs) = (startswith (c # cs) sub \<or> str_contains sub cs)"

text \<open>
  \<^verbatim>\<open>s.replace(old, "")\<close>: every occurrence of \<open>old\<close> is removed, scanning from the
  left without overlap. With an empty \<open>old\<close> Python returns \<open>s\<close> unchanged, as here.
\<close>

fun str_remove :: "string \<Rightarrow> string \<Rightarrow> string" where
  "str_remove old [] = []"
| "str_remove old (c # cs) =
     (if old \<noteq> [] \<and> startswith (c # cs) old
      then str_remove old (drop (length old - 1) cs)
      else c # str_remove old cs)"

text \<open>The two currency signs, as their UTF-8 bytes: U+20AC and U+00A3.\<close>

definition euro_sign :: string where
  "euro_sign = [CHR 0xE2, CHR 0x82, CHR 0xAC]"

definition pound_sign :: string where
  "pound_sign = [CHR 0xC2, CHR 0xA3]"

subsection \<open>Python built-ins: floats\<close>

text \<open>
  A Python \<^verbatim>\<open>float\<close> is an IEEE 754 binary64 value: a finite value is the rational it
  denotes (\<open>Fin 0\<close> is \<open>+0.0\<close>), and the negative zero, the infinities and the
  not-a-number are values of their own.
\<close>

datatype pyfloat = Fin rat | NegZero | PosInf | NegInf | NaN

text \<open>Unary minus.\<close>

fun float_neg :: "pyfloat \<Rightarrow> pyfloat" where
  "float_neg (Fin q) = (if q = 0 then NegZero else Fin (- q))"
| "float_neg NegZero = Fin 0"
| "float_neg PosInf = NegInf"
| "float_neg NegInf = PosInf"
| "float_neg NaN = NaN"

text \<open>\<^verbatim>\<open>bool(x)\<close>: every float but the two zeros is true.\<close>

fun float_truthy :: "pyfloat \<Rightarrow> bool" where
  "float_truthy (Fin q) = (q \<noteq> 0)"
| "float_truthy NegZero = False"
| "float_truthy _ = True"

text \<open>\<^verbatim>\<open>a <= b\<close>: false whenever a not-a-number is compared.\<close>

fun float_le :: "pyfloat \<Rightarrow> pyfloat \<Rightarrow> bool" where
  "float_le NaN _ = False"
| "float_le _ NaN = False"
| "float_le NegInf _ = True"
| "float_le _ PosInf = True"
| "float_le PosInf _ = False"
| "float_le _ NegInf = False"
| "float_le NegZero NegZero = True"
| "float_le NegZero (Fin b) = (0 \<le> b)"
| "float_le (Fin a) NegZero = (a \<le> 0)"
| "float_le (Fin a) (Fin b) = (a \<le> b)"

text \<open>Number of binary digits of a positive integer.\<close>

function bit_length :: "int \<Rightarrow> nat" where
  "bit_length n = (if n \<le> 0 then 0 else Suc (bit_length (n div 2)))"
  by pat_completeness auto
termination
  by (relation "measure nat") auto

text \<open>\<open>n / d\<close> rounded to the nearest integer, a tie to the even one (\<open>0 \<le> n\<close>, \<open>0 < d\<close>).\<close>

definition round_half_even :: "int \<Rightarrow> int \<Rightarrow> int" where
  "round_half_even n d =
     (let q = n div d; r = n mod d
      in if 2 * r < d then q
         else if d < 2 * r then q + 1
         else if even q then q else q + 1)"

text \<open>
  The binary exponent of \<open>n / d\<close> (for \<open>0 < n\<close>, \<open>0 < d\<close>): the \<open>e\<close> with
  \<open>2 ^ e \<le> n / d < 2 ^ (e + 1)\<close>.
\<close>

definition binary_exponent :: "int \<Rightarrow> int \<Rightarrow> int" where
  "binary_exponent n d =
     (let t = int (bit_length n) - int (bit_length d)
      in if (if 0 \<le> t then d * 2 ^ nat t \<le> n else d \<le> n * 2 ^ nat (- t))
         then t else t - 1)"

text \<open>
  The binary64 value nearest to \<open>n / d\<close> (ties to even), with the sign \<open>negative\<close>:
  53 significant bits, least exponent \<open>-1074\<close>, overflow to an infinity, underflow to
  a zero that keeps the sign.
\<close>

definition to_double :: "bool \<Rightarrow> int \<Rightarrow> int \<Rightarrow> pyfloat" where
  "to_double negative n d =
     (if n = 0 then (if negative then NegZero else Fin 0)
      else
        let p = max (binary_exponent n d - 52) (- 1074);
            m = (if 0 \<le> p then round_half_even n (d * 2 ^ nat p)
                 else round_half_even (n * 2 ^ nat (- p)) d)
        in if 0 \<le> p \<and> 2 ^ 1024 \<le> m * 2 ^ nat p
           then (if negative then NegInf else PosInf)
           else if m = 0 then (if negative then NegZero else Fin 0)
           else
             let v = (if 0 \<le> p then of_int (m * 2 ^ nat p)
                      else of_int m / of_int (2 ^ nat (- p)))
             in Fin (if negative then - v else v))"

text \<open>The value of a digit and of a run of decimal digits (underscores skipped).\<close>

definition digit_val :: "char \<Rightarrow> int" where
  "digit_val c = (case map_of (zip ''0123456789'' [0, 1, 2, 3, 4, 5, 6, 7, 8, 9]) c of
                    Some n \<Rightarrow> n | None \<Rightarrow> 0)"

definition int_of_digits :: "string \<Rightarrow> int" where
  "int_of_digits s = foldl (\<lambda>a c. 10 * a + digit_val c) 0 (filter is_digit s)"

definition digit_or_underscore :: "char \<Rightarrow> bool" where
  "digit_or_underscore c = (is_digit c \<or> c = CHR ''_'')"

text \<open>
  A digit part of a float literal: digits, with single underscores allowed between two
  digits only.
\<close>

definition digitpart :: "string \<Rightarrow> bool" where
  "digitpart ds = (ds \<noteq> [] \<and> list_all digit_or_underscore ds \<and> is_digit (hd ds) \<and>
                   is_digit (last ds) \<and> \<not> str_contains ''__'' ds)"

text \<open>An optional sign: whether it is a minus, and the text after it.\<close>

definition split_sign :: "string \<Rightarrow> bool \<times> string" where
  "split_sign s =
     (case s of
        [] \<Rightarrow> (False, s)
      | c # r \<Rightarrow> if c = CHR ''-'' then (True, r) else if c = CHR ''+'' then (False, r)
                  else (False, s))"

text \<open>
  The decimal number of a float literal, \<^verbatim>\<open>[digits][.digits][(e|E)[sign]digits]\<close> with
  a digit before or after the point: its digits \<open>m\<close> and decimal exponent \<open>k\<close>, for the
  value \<open>m * 10 ^ k\<close>; \<open>None\<close> when the text is no such literal.
\<close>

definition parse_decimal :: "string \<Rightarrow> (int \<times> int) option" where
  "parse_decimal body =
     (let ip = takeWhile digit_or_underscore body;
          r1 = dropWhile digit_or_underscore body;
          hasdot = (r1 \<noteq> [] \<and> hd r1 = CHR ''.'');
          fp = (if hasdot then takeWhile digit_or_underscore (tl r1) else []);
          r2 = (if hasdot then dropWhile digit_or_underscore (tl r1) else r1);
          mantissa_ok = ((digitpart ip \<and> (fp = [] \<or> digitpart fp)) \<or>
                         (ip = [] \<and> hasdot \<and> digitpart fp));
          m = int_of_digits (ip @ fp);
          scale = int (length (filter is_digit fp))
      in if \<not> mantissa_ok then None
         else if r2 = [] then Some (m, - scale)
         else if hd r2 = CHR ''e'' \<or> hd r2 = CHR ''E'' then
           (let (eneg, ds) = split_sign (tl r2)
            in if digitpart ds
               then Some (m, (if eneg then - int_of_digits ds else int_of_digits ds) - scale)
               else None)
         else None)"

text \<open>White space that \<^verbatim>\<open>float()\<close> skips around an ASCII text.\<close>

definition is_c_space :: "char \<Rightarrow> bool" where
  "is_c_space c = (c \<in> set [CHR 0x20, CHR 0x09, CHR 0x0A, CHR 0x0B, CHR 0x0C, CHR 0x0D])"

text \<open>
  \<^verbatim>\<open>float(s)\<close>: white space around, an optional sign, then \<^verbatim>\<open>inf\<close>, \<^verbatim>\<open>infinity\<close> or
  \<^verbatim>\<open>nan\<close> in any case, or a decimal literal; \<^verbatim>\<open>ValueError\<close> otherwise.
\<close>

definition float_of_string :: "string \<Rightarrow> py_error + pyfloat" where
  "float_of_string s =
     (let t = rev (dropWhile is_c_space (rev (dropWhile is_c_space s)));
          (negative, body) = split_sign t;
          lb = str_lower body
      in if lb = ''inf'' \<or> lb = ''infinity'' then Inr (if negative then NegInf else PosInf)
         else if lb = ''nan'' then Inr NaN
         else (case parse_decimal body of
                 None \<Rightarrow> Inl ValueError
               | Some (m, k) \<Rightarrow>
                   Inr (if 0 \<le> k then to_double negative (m * 10 ^ nat k) 1
                        else to_double negative m (10 ^ nat (- k)))))"

text \<open>The decimal digits of an integer that is not negative.\<close>

function int_to_dec :: "int \<Rightarrow> string" where
  "int_to_dec n =
     (if n < 10 then [''0123456789'' ! nat n]
      else int_to_dec (n div 10) @ [''0123456789'' ! nat (n mod 10)])"
  by pat_completeness auto
termination
  by (relation "measure nat") auto

text \<open>
  \<^verbatim>\<open>f"{x:.2f}"\<close>: the value rounded to two decimal places (the exact binary value is
  rounded, a tie to the even digit), a minus sign for a negative value and for the
  negative zero.
\<close>

fun format_2f :: "pyfloat \<Rightarrow> string" where
  "format_2f (Fin q) =
     (let (a, b) = quotient_of \<bar>q\<bar>;
          cents = round_half_even (a * 100) b
      in (if q < 0 then ''-'' else '''') @ int_to_dec (cents div 100) @ ''.'' @
         int_to_dec (cents mod 100 div 10) @ int_to_dec (cents mod 10))"
| "format_2f NegZero = ''-0.00''"
| "format_2f PosInf = ''inf''"
| "format_2f NegInf = ''-inf''"
| "format_2f NaN = ''nan''"

subsection \<open>Constants\<close>

definition MONTHS :: "string list" where
  "MONTHS = [''Jan'', ''Feb'', ''Mar'', ''Apr'', ''May'', ''Jun'',
             ''Jul'', ''Aug'', ''Sep'', ''Oct'', ''Nov'', ''Dec'']"

text \<open>
  \<^verbatim>\<open>AMOUNT_RE.match(s)\<close> for the pattern \<^verbatim>\<open>^\d+\.\d{2}$\<close>: digits, a point and two
  digits; \<^verbatim>\<open>$\<close> also matches before one final newline.
\<close>

definition AMOUNT_RE_match :: "string \<Rightarrow> bool" where
  "AMOUNT_RE_match s =
     (takeWhile is_digit s \<noteq> [] \<and>
      (case dropWhile is_digit s of
         [p, a, b] \<Rightarrow> p = CHR ''.'' \<and> is_digit a \<and> is_digit b
       | [p, a, b, n] \<Rightarrow> p = CHR ''.'' \<and> is_digit a \<and> is_digit b \<and> n = CHR 0x0A
       | _ \<Rightarrow> False))"

text \<open>
  \<^verbatim>\<open>COLUMN_BOUNDS\<close>, in the order of the dictionary: the band of left x-coordinates of
  each column.
\<close>

definition COLUMN_BOUNDS :: "(string \<times> pyfloat \<times> pyfloat) list" where
  "COLUMN_BOUNDS = [(''DEBIT'', Fin 250, Fin 324),
                    (''CREDIT'', Fin 325, Fin 350),
                    (''BALANCE'', Fin 395, PosInf)]"

subsection \<open>parse\_amount\_field\<close>

text \<open>Line 78: stripped, in lower case, without currency signs and commas.\<close>

definition normalise_amount :: "string \<Rightarrow> string" where
  "normalise_amount amount_str =
     str_remove '','' (str_remove pound_sign (str_remove euro_sign
       (str_lower (str_strip amount_str))))"

text \<open>Line 84, for a text that holds the overdraft marker: the marker removed.\<close>

definition strip_marker :: "string \<Rightarrow> string" where
  "strip_marker s = (if str_contains ''dr'' s then str_strip (str_remove ''dr'' s) else s)"

text \<open>Lines 88 to 90: a leading minus sign removed.\<close>

definition strip_minus :: "string \<Rightarrow> string" where
  "strip_minus s = (if startswith s ''-'' then tl s else s)"

text \<open>
  Lines 74 to 100. Only \<^verbatim>\<open>ValueError\<close> is caught: any other exception of the
  conversion would leave the function.
\<close>

definition parse_amount_field :: "string \<Rightarrow> bool \<Rightarrow> py_error + pyfloat" where
  "parse_amount_field amount_str is_balance =
     (if amount_str = [] \<or> str_strip amount_str = [] then Inr (Fin 0)
      else
        let s = normalise_amount amount_str;
            overdrawn = str_contains ''dr'' s
        in if overdrawn \<and> \<not> is_balance then Inr (Fin 0)
           else
             let s1 = strip_marker s;
                 negative = startswith s1 ''-'';
                 s2 = strip_minus s1
             in (case float_of_string s2 of
                   Inr val \<Rightarrow>
                     Inr (if is_balance \<and> overdrawn then float_neg val
                          else if negative then float_neg val
                          else val)
                 | Inl ValueError \<Rightarrow> Inr (Fin 0)
                 | Inl e \<Rightarrow> Inl e))"

subsection \<open>Data\<close>

text \<open>
  A positioned word (\<^verbatim>\<open>WordTuple\<close>): its box, its text, and the block, line and word
  numbers that the parser never reads.
\<close>

record word =
  w_x0 :: pyfloat
  w_y0 :: pyfloat
  w_x1 :: pyfloat
  w_y1 :: pyfloat
  w_txt :: string
  w_rest :: "int list"

text \<open>The dictionary that \<^verbatim>\<open>find_amount_coordinates\<close> returns.\<close>

record coords =
  x0 :: pyfloat
  y0 :: pyfloat
  x1 :: pyfloat
  y1 :: pyfloat
  column :: string

text \<open>A value that is a string or a float, as the coordinates of a transaction are.\<close>

datatype py_value = Str string | Float pyfloat

text \<open>The dictionary of one transaction.\<close>

record transaction =
  row :: int
  date :: string
  details :: string
  debit :: pyfloat
  credit :: pyfloat
  balance :: pyfloat
  x_coord :: py_value
  y_coord :: py_value

text \<open>
  \<^verbatim>\<open>xs[i]\<close> for an index that is not negative: \<^verbatim>\<open>IndexError\<close> beyond the end.
\<close>

definition py_index :: "'a list \<Rightarrow> nat \<Rightarrow> py_error + 'a" where
  "py_index xs i = (if i < length xs then Inr (xs ! i) else Inl IndexError)"

text \<open>\<^verbatim>\<open>enumerate(xs, start)\<close>.\<close>

definition enumerate_from :: "nat \<Rightarrow> 'a list \<Rightarrow> (nat \<times> 'a) list" where
  "enumerate_from start xs = zip [start ..< start + length xs] xs"

subsection \<open>extract\_date\_from\_raw\_text\<close>

text \<open>
  \<^verbatim>\<open>DATE_RE\<close> is one or two digits, white space, a month of \<^verbatim>\<open>MONTHS\<close>, white
  space, four digits. After the day, the rest of the pattern at the head of a text:
\<close>

definition date_re_tail :: "string \<Rightarrow> string \<Rightarrow> string option" where
  "date_re_tail day s =
     (let ws1 = takeWhile is_space s; r1 = dropWhile is_space s;
          month = take 3 r1; r2 = drop 3 r1;
          ws2 = takeWhile is_space r2; r3 = dropWhile is_space r2;
          year = take 4 r3
      in if ws1 \<noteq> [] \<and> month \<in> set MONTHS \<and> ws2 \<noteq> [] \<and> length year = 4 \<and>
            list_all is_digit year
         then Some (day @ '' '' @ month @ '' '' @ year)
         else None)"

text \<open>
  The pattern at the head of a text. The day is greedy: two digits are tried first,
  then one.
\<close>

definition date_re_match :: "string \<Rightarrow> string option" where
  "date_re_match s =
     (case s of
        [] \<Rightarrow> None
      | [a] \<Rightarrow> None
      | a # b # r \<Rightarrow>
          if is_digit a \<and> is_digit b then
            (case date_re_tail [a, b] r of
               Some d \<Rightarrow> Some d
             | None \<Rightarrow> date_re_tail [a] (b # r))
          else if is_digit a then date_re_tail [a] (b # r)
          else None)"

text \<open>\<^verbatim>\<open>DATE_RE.search(s)\<close>: the match at the leftmost position that has one.\<close>

fun date_re_search :: "string \<Rightarrow> string option" where
  "date_re_search [] = None"
| "date_re_search (c # cs) =
     (case date_re_match (c # cs) of
        Some d \<Rightarrow> Some d
      | None \<Rightarrow> date_re_search cs)"

text \<open>Lines 53 to 57.\<close>

definition extract_date_from_raw_text :: "string \<Rightarrow> string option" where
  "extract_date_from_raw_text text = date_re_search (text @ '' BALANCE FORWARD'')"

subsection \<open>find\_amount\_coordinates\<close>

text \<open>
  The inner loop of lines 67 to 70 over the bands: the first band that holds the
  x-coordinate, and \<^verbatim>\<open>"UNKNOWN"\<close> after the loop.
\<close>

fun band_of :: "(string \<times> pyfloat \<times> pyfloat) list \<Rightarrow> pyfloat \<Rightarrow> string" where
  "band_of [] x = ''UNKNOWN''"
| "band_of ((col, xmin, xmax) # bands) x =
     (if float_le xmin x \<and> float_le x xmax then col else band_of bands x)"

text \<open>Lines 60 to 71: the loop over the words returns at the first word that matches.\<close>

fun find_amount_coordinates :: "word list \<Rightarrow> pyfloat \<Rightarrow> coords option" where
  "find_amount_coordinates [] amount = None"
| "find_amount_coordinates (w # words) amount =
     (if str_remove '','' (w_txt w) = format_2f amount
      then Some \<lparr>x0 = w_x0 w, y0 = w_y0 w, x1 = w_x1 w, y1 = w_y1 w,
                 column = band_of COLUMN_BOUNDS (w_x0 w)\<rparr>
      else find_amount_coordinates words amount)"

subsection \<open>extract\_initial\_date\<close>

text \<open>The test of lines 107 and 120: one of the two anchor phrases is in the text.\<close>

definition has_anchor :: "string \<Rightarrow> bool" where
  "has_anchor text = list_ex (\<lambda>k. str_contains k text) [''BALANCE FORWARD'', ''LENDING @'']"

text \<open>The inner loop of lines 108 to 113, over the row numbers \<open>js\<close>.\<close>

fun initial_date_rows :: "string list list \<Rightarrow> nat list \<Rightarrow> py_error + string option" where
  "initial_date_rows table [] = Inr None"
| "initial_date_rows table (j # js) =
     (case py_index table j of
        Inl e \<Rightarrow> Inl e
      | Inr cells \<Rightarrow>
          if 3 \<le> length cells then
            (case py_index cells 0 of
               Inl e \<Rightarrow> Inl e
             | Inr c0 \<Rightarrow>
                 (case py_index cells 1 of
                    Inl e \<Rightarrow> Inl e
                  | Inr c1 \<Rightarrow>
                      (case py_index cells 2 of
                         Inl e \<Rightarrow> Inl e
                       | Inr c2 \<Rightarrow>
                           let d = str_strip c0; m = str_strip c1; y = str_strip c2
                           in if str_isdigit d \<and> m \<in> set MONTHS \<and> str_isdigit y
                              then Inr (Some (d @ '' '' @ m @ '' '' @ y))
                              else initial_date_rows table js)))
          else initial_date_rows table js)"

text \<open>The outer loop of lines 105 to 113, over the row numbers \<open>is\<close>.\<close>

fun initial_date_anchor :: "string list list \<Rightarrow> nat \<Rightarrow> nat list \<Rightarrow> py_error + string" where
  "initial_date_anchor table limit [] = Inr ''''"
| "initial_date_anchor table limit (i # is) =
     (case py_index table i of
        Inl e \<Rightarrow> Inl e
      | Inr r \<Rightarrow>
          let row_text = str_upper (str_join '' '' r)
          in if has_anchor row_text then
               (case initial_date_rows table [i ..< min (i + 4) limit] of
                  Inl e \<Rightarrow> Inl e
                | Inr (Some d) \<Rightarrow> Inr d
                | Inr None \<Rightarrow> initial_date_anchor table limit is)
             else initial_date_anchor table limit is)"

text \<open>Lines 103 to 114.\<close>

definition extract_initial_date :: "string list list \<Rightarrow> py_error + string" where
  "extract_initial_date table =
     (let limit = min (length table) 12
      in initial_date_anchor table limit [0 ..< limit])"

subsection \<open>find\_transaction\_start\_index\<close>

text \<open>The loop of lines 122 and 123: blank rows are skipped while there are rows.\<close>

function skip_blank_rows :: "string list list \<Rightarrow> nat \<Rightarrow> py_error + nat" where
  "skip_blank_rows table idx =
     (if idx < length table then
        (case py_index table idx of
           Inl e \<Rightarrow> Inl e
         | Inr r \<Rightarrow>
             if \<not> list_ex (\<lambda>cell. cell \<noteq> []) r then skip_blank_rows table (idx + 1)
             else Inr idx)
      else Inr idx)"
  by pat_completeness auto
termination
  by (relation "measure (\<lambda>(table, idx). length table - idx)") auto

text \<open>The loop of lines 118 to 124 over the numbered rows of \<^verbatim>\<open>table[:12]\<close>.\<close>

fun start_index_scan :: "string list list \<Rightarrow> (nat \<times> string list) list \<Rightarrow> py_error + nat" where
  "start_index_scan table [] = Inr 0"
| "start_index_scan table ((i, r) # rest) =
     (let text = str_upper (str_join '' '' (map str_strip r))
      in if has_anchor text then skip_blank_rows table (i + 3)
         else start_index_scan table rest)"

text \<open>Lines 117 to 125.\<close>

definition find_transaction_start_index :: "string list list \<Rightarrow> py_error + nat" where
  "find_transaction_start_index table = start_index_scan table (enumerate_from 0 (take 12 table))"

subsection \<open>parse\_transaction\_row\<close>

text \<open>
  The loop of lines 139 to 150 over the cells: the values of \<^verbatim>\<open>debit\<close>,
  \<^verbatim>\<open>credit\<close>, \<^verbatim>\<open>balance\<close> and \<^verbatim>\<open>coords\<close> when it ends. It ends at the first cell
  that matches \<^verbatim>\<open>AMOUNT_RE\<close> (the \<^verbatim>\<open>break\<close>), or after the last cell.
\<close>

fun amount_scan ::
  "string list \<Rightarrow> word list \<Rightarrow> py_error + (pyfloat \<times> pyfloat \<times> pyfloat \<times> coords option)" where
  "amount_scan [] words = Inr (Fin 0, Fin 0, Fin 0, None)"
| "amount_scan (cell # cells) words =
     (if AMOUNT_RE_match cell then
        (case float_of_string cell of
           Inl e \<Rightarrow> Inl e
         | Inr amt \<Rightarrow>
             let coords = find_amount_coordinates words amt;
                 col = (case coords of Some c \<Rightarrow> column c | None \<Rightarrow> ''DEBIT'')
             in if col = ''DEBIT'' then Inr (amt, Fin 0, Fin 0, coords)
                else if col = ''CREDIT'' then Inr (Fin 0, amt, Fin 0, coords)
                else if col = ''BALANCE'' then Inr (Fin 0, Fin 0, amt, coords)
                else Inr (Fin 0, Fin 0, Fin 0, coords))
      else amount_scan cells words)"

text \<open>
  The details of lines 158 to 160 and 165: the cells that are no amounts, joined by a
  space and stripped.
\<close>

definition details_of :: "string list \<Rightarrow> string" where
  "details_of cells = str_strip (str_join '' '' (filter (\<lambda>c. \<not> AMOUNT_RE_match c) cells))"

text \<open>
  The loop of lines 154 to 161 over the positions \<open>is\<close>: the values of \<^verbatim>\<open>date\<close> and
  \<^verbatim>\<open>details\<close> when it ends, both empty when no position holds a day, a month and a
  year.
\<close>

fun date_scan :: "string list \<Rightarrow> nat list \<Rightarrow> py_error + (string \<times> string)" where
  "date_scan cells [] = Inr ('''', '''')"
| "date_scan cells (i # is) =
     (case py_index cells i of
        Inl e \<Rightarrow> Inl e
      | Inr c0 \<Rightarrow>
          (case py_index cells (i + 1) of
             Inl e \<Rightarrow> Inl e
           | Inr c1 \<Rightarrow>
               (case py_index cells (i + 2) of
                  Inl e \<Rightarrow> Inl e
                | Inr c2 \<Rightarrow>
                    let d = str_strip c0; m = str_strip c1; y = str_strip c2
                    in if str_isdigit d \<and> m \<in> set MONTHS \<and> str_isdigit y
                       then Inr (d @ '' '' @ m @ '' '' @ y, details_of (drop (i + 3) cells))
                       else date_scan cells is)))"

text \<open>
  Lines 130 to 179. \<^verbatim>\<open>range(len(row) - 2)\<close> is empty when the row has fewer than
  three cells, as \<open>[0 ..< length cells - 2]\<close> is with the subtraction of natural numbers.
  \<^verbatim>\<open>not any(...)\<close> of line 167 holds when the two strings are empty and the three
  floats are zero.
\<close>

definition parse_transaction_row ::
  "string list \<Rightarrow> int \<Rightarrow> word list \<Rightarrow> string \<Rightarrow> py_error + transaction option" where
  "parse_transaction_row cells idx words inherited_date =
     (case amount_scan cells words of
        Inl e \<Rightarrow> Inl e
      | Inr (debit0, credit0, balance0, coords) \<Rightarrow>
          (case date_scan cells [0 ..< length cells - 2] of
             Inl e \<Rightarrow> Inl e
           | Inr (date0, details0) \<Rightarrow>
               let date1 = (if date0 = [] then inherited_date else date0);
                   details1 = (if date0 = [] then details_of cells else details0)
               in if date1 = [] \<and> details1 = [] \<and> \<not> float_truthy debit0 \<and>
                     \<not> float_truthy credit0 \<and> \<not> float_truthy balance0
                  then Inr None
                  else Inr (Some \<lparr>row = idx, date = date1, details = details1,
                                   debit = debit0, credit = credit0, balance = balance0,
                                   x_coord = (case coords of Some c \<Rightarrow> Float (x0 c)
                                              | None \<Rightarrow> Str ''''),
                                   y_coord = (case coords of Some c \<Rightarrow> Float (y0 c)
                                              | None \<Rightarrow> Str '''')\<rparr>)))"

subsection \<open>clean\_page\_transactions\<close>

text \<open>
  A page, as far as the parser reads it: its raw text (\<^verbatim>\<open>page.get_text()\<close>), its
  positioned words and the grids of the tables found on it.
\<close>

record page =
  get_text :: string
  get_words :: "word list"
  find_tables :: "string list list list"

text \<open>Lines 190 to 194: the date of the table, or else the first date of the raw text.\<close>

definition initial_date_of :: "string list list \<Rightarrow> page \<Rightarrow> py_error + string" where
  "initial_date_of table pg =
     (case extract_initial_date table of
        Inl e \<Rightarrow> Inl e
      | Inr d \<Rightarrow>
          if d = [] then
            Inr (case extract_date_from_raw_text (get_text pg) of Some r \<Rightarrow> r | None \<Rightarrow> '''')
          else Inr d)"

text \<open>
  The loop of lines 202 to 214 over the numbered rows. Its state is the carried date
  \<^verbatim>\<open>current_date\<close> and the list \<^verbatim>\<open>txs\<close>; the result is \<^verbatim>\<open>txs\<close> after the last row.
\<close>

fun tx_loop ::
  "word list \<Rightarrow> string \<Rightarrow> transaction list \<Rightarrow> (nat \<times> string list) list \<Rightarrow>
   py_error + transaction list" where
  "tx_loop words current_date txs [] = Inr txs"
| "tx_loop words current_date txs ((idx, raw_row) # rest) =
     (if \<not> list_ex (\<lambda>cell. str_strip cell \<noteq> []) raw_row
      then tx_loop words current_date txs rest
      else
        (case parse_transaction_row (map str_strip raw_row) (int idx) words current_date of
           Inl e \<Rightarrow> Inl e
         | Inr None \<Rightarrow> tx_loop words current_date txs rest
         | Inr (Some tx) \<Rightarrow>
             if date tx \<noteq> [] \<and> date tx \<noteq> current_date
             then tx_loop words (date tx) (txs @ [tx]) rest
             else tx_loop words current_date (txs @ [tx\<lparr>date := current_date\<rparr>]) rest))"

text \<open>Lines 182 to 216. The page number is only logged.\<close>

definition clean_page_transactions ::
  "string list list \<Rightarrow> nat \<Rightarrow> page \<Rightarrow> word list \<Rightarrow> py_error + transaction list" where
  "clean_page_transactions table page_num pg words =
     (case initial_date_of table pg of
        Inl e \<Rightarrow> Inl e
      | Inr initial_date \<Rightarrow>
          (case find_transaction_start_index table of
             Inl e \<Rightarrow> Inl e
           | Inr start_idx \<Rightarrow>
               tx_loop words initial_date [] (enumerate_from start_idx (drop start_idx table))))"

subsection \<open>read\_pdf\_and\_extract\<close>

text \<open>
  An open document: for each page number, what reading that page gives. The calls of
  the PDF library on a page (lines 227 to 244) either give its words and tables or raise
  an exception; \<open>closed\<close> tells whether \<^verbatim>\<open>doc.close()\<close> has been called.
\<close>

record document =
  pages :: "(py_error + page) list"
  closed :: bool

text \<open>
  The loop of lines 226 to 246 over the pages, from page number \<open>p\<close> on, with the list
  \<^verbatim>\<open>all_txs\<close>. An exception of a page leaves the loop.
\<close>

fun page_loop :: "transaction list \<Rightarrow> nat \<Rightarrow> (py_error + page) list \<Rightarrow> py_error + transaction list" where
  "page_loop all_txs p [] = Inr all_txs"
| "page_loop all_txs p (pr # rest) =
     (case pr of
        Inl e \<Rightarrow> Inl e
      | Inr pg \<Rightarrow>
          (case find_tables pg of
             [] \<Rightarrow> page_loop all_txs (p + 1) rest
           | raw_table # _ \<Rightarrow>
               (case clean_page_transactions raw_table (p + 1) pg (get_words pg) of
                  Inl e \<Rightarrow> Inl e
                | Inr txs \<Rightarrow> page_loop (all_txs @ txs) (p + 1) rest)))"

text \<open>
  Lines 221 to 249, from the opened document on: the result and the document after the
  call. \<^verbatim>\<open>doc.close()\<close> is the statement after the loop, so an exception that leaves the
  loop leaves the function before it.
\<close>

definition read_pdf_and_extract :: "document \<Rightarrow> (py_error + transaction list) \<times> document" where
  "read_pdf_and_extract doc =
     (case page_loop [] 0 (pages doc) of
        Inl e \<Rightarrow> (Inl e, doc)
      | Inr all_txs \<Rightarrow> (Inr all_txs, doc\<lparr>closed := True\<rparr>))"

subsection \<open>export\_to\_csv\<close>

text \<open>
  What the writer has put in the file: the header of \<^verbatim>\<open>writeheader()\<close> and one list
  of values for each \<^verbatim>\<open>writerow\<close>.
\<close>

record csv_file =
  header :: "string list"
  records :: "py_value list list"

text \<open>\<^verbatim>\<open>x or ""\<close> for a float \<open>x\<close>.\<close>

definition or_empty :: "pyfloat \<Rightarrow> py_value" where
  "or_empty x = (if float_truthy x then Float x else Str '''')"

text \<open>
  \<^verbatim>\<open>DictWriter.writerow\<close>: the values of the dictionary in the order of the field
  names, an empty string for a field name without a value, and \<^verbatim>\<open>ValueError\<close> for a
  key that is no field name.
\<close>

definition writerow :: "string list \<Rightarrow> (string \<times> py_value) list \<Rightarrow> py_error + py_value list" where
  "writerow fieldnames d =
     (if list_all (\<lambda>(k, v). k \<in> set fieldnames) d
      then Inr (map (\<lambda>k. case map_of d k of Some v \<Rightarrow> v | None \<Rightarrow> Str '''') fieldnames)
      else Inl ValueError)"

text \<open>The dictionary of lines 271 to 280 for one transaction.\<close>

definition csv_row :: "bool \<Rightarrow> transaction \<Rightarrow> (string \<times> py_value) list" where
  "csv_row debug tx =
     [(''date'', Str (date tx)), (''details'', Str (details tx)),
      (''debit'', or_empty (debit tx)), (''credit'', or_empty (credit tx)),
      (''balance'', or_empty (balance tx))] @
     (if debug then [(''x_coord'', x_coord tx), (''y_coord'', y_coord tx)] else [])"

text \<open>The loop of lines 270 to 281, with the rows written so far.\<close>

fun write_rows ::
  "string list \<Rightarrow> bool \<Rightarrow> py_value list list \<Rightarrow> transaction list \<Rightarrow> py_error + py_value list list" where
  "write_rows fieldnames debug written [] = Inr written"
| "write_rows fieldnames debug written (tx # txs) =
     (case writerow fieldnames (csv_row debug tx) of
        Inl e \<Rightarrow> Inl e
      | Inr r \<Rightarrow> write_rows fieldnames debug (written @ [r]) txs)"

text \<open>
  Lines 252 to 283: the file that is written, and \<open>None\<close> when the function returns
  before it opens one.
\<close>

definition export_to_csv :: "transaction list \<Rightarrow> bool \<Rightarrow> py_error + csv_file option" where
  "export_to_csv transactions debug =
     (if transactions = [] then Inr None
      else
        let fieldnames = [''date'', ''details'', ''debit'', ''credit'', ''balance''] @
                         (if debug then [''x_coord'', ''y_coord''] else [])
        in (case write_rows fieldnames debug [] transactions of
              Inl e \<Rightarrow> Inl e
            | Inr rs \<Rightarrow> Inr (Some \<lparr>header = fieldnames, records = rs\<rparr>)))"

subsection \<open>Notions of the statements\<close>

text \<open>
  The date that a row holds itself (lines 154 to 157): what the scan for a day, a month
  and a year in three cells in a row leaves in \<^verbatim>\<open>date\<close>, empty when there is none.
\<close>

definition row_date :: "string list \<Rightarrow> string" where
  "row_date cells =
     (case date_scan cells [0 ..< length cells - 2] of Inr (d, _) \<Rightarrow> d | Inl _ \<Rightarrow> [])"

text \<open>
  Dates that are carried forward: each transaction of the list has the date of its own
  row when that row holds one (\<open>own\<close> gives it, by the row number), and else the date
  of the transaction before it, the date \<open>carried\<close> for the first one.
\<close>

fun dates_carried :: "(int \<Rightarrow> string) \<Rightarrow> string \<Rightarrow> transaction list \<Rightarrow> bool" where
  "dates_carried own carried [] = True"
| "dates_carried own carried (tx # txs) =
     (date tx = (if own (row tx) = [] then carried else own (row tx)) \<and>
      dates_carried own (date tx) txs)"

text \<open>A row whose joined text in upper case holds an anchor phrase (lines 106 and 107).\<close>

definition anchor_row :: "string list \<Rightarrow> bool" where
  "anchor_row r = has_anchor (str_upper (str_join '' '' r))"

text \<open>
  A row of at least three cells that begins with a day, a month and a year (lines 110
  to 112), and the date composed of them (line 113).
\<close>

definition date_cells :: "string list \<Rightarrow> bool" where
  "date_cells cells =
     (3 \<le> length cells \<and> str_isdigit (str_strip (cells ! 0)) \<and>
      str_strip (cells ! 1) \<in> set MONTHS \<and> str_isdigit (str_strip (cells ! 2)))"

definition composed_date :: "string list \<Rightarrow> string" where
  "composed_date cells =
     str_strip (cells ! 0) @ '' '' @ str_strip (cells ! 1) @ '' '' @ str_strip (cells ! 2)"


section \<open>Properties\<close>

subsection \<open>The amount parser\<close>

lemma str_strip_Nil [simp]: "str_strip [] = []"
  by (simp add: str_strip_def)

lemma float_of_string_error: "float_of_string s = Inl e \<Longrightarrow> e = ValueError"
  by (auto simp: float_of_string_def Let_def split: prod.splits if_splits option.splits)

lemma parse_amount_field_returns: "\<exists>v. parse_amount_field s b = Inr v"
proof (cases "float_of_string (strip_minus (strip_marker (normalise_amount s)))")
  case (Inl e)
  then have "e = ValueError" by (rule float_of_string_error)
  with Inl show ?thesis by (simp add: parse_amount_field_def Let_def)
next
  case (Inr v)
  then show ?thesis by (simp add: parse_amount_field_def Let_def)
qed

lemma parse_amount_field_blank: "str_strip s = [] \<Longrightarrow> parse_amount_field s b = Inr (Fin 0)"
  by (simp add: parse_amount_field_def)

lemma parse_amount_field_conversion_fails:
  "float_of_string (strip_minus (strip_marker (normalise_amount s))) = Inl e \<Longrightarrow>
   parse_amount_field s b = Inr (Fin 0)"
  using float_of_string_error [of "strip_minus (strip_marker (normalise_amount s))" e]
  by (auto simp: parse_amount_field_def Let_def)

lemma parse_amount_field_examples:
  "parse_amount_field '''' b = Inr (Fin 0)"
  "parse_amount_field ''1,234.56'' False = float_of_string ''1234.56''"
  "parse_amount_field ''1,234.56'' False = Inr (Fin (2714826150374277 / 2199023255552))"
  "parse_amount_field (euro_sign @ ''1,234.56'') False = float_of_string ''1234.56''"
  "parse_amount_field (pound_sign @ ''1,234.56'') False = float_of_string ''1234.56''"
  by (simp add: parse_amount_field_def, code_simp+)

text \<open>
  Claim C6. \<^verbatim>\<open>parse_amount_field\<close> always returns a float and never raises: an empty
  or blank text gives \<open>0.0\<close>; a text whose conversion by \<^verbatim>\<open>float\<close> fails gives \<open>0.0\<close>;
  the thousands separators and the currency signs are removed before the conversion, so
  that \<^verbatim>\<open>"1,234.56"\<close>, also after a euro or a pound sign, gives the float \<open>1234.56\<close>
  (the binary64 value \<open>2714826150374277 / 2 ^ 41\<close>).
\<close>

theorem parse_amount_field_total:
  "(\<exists>v. parse_amount_field s b = Inr v) \<and>
   (str_strip s = [] \<longrightarrow> parse_amount_field s b = Inr (Fin 0)) \<and>
   (\<forall>e. float_of_string (strip_minus (strip_marker (normalise_amount s))) = Inl e \<longrightarrow>
        parse_amount_field s b = Inr (Fin 0)) \<and>
   parse_amount_field '''' b = Inr (Fin 0) \<and>
   parse_amount_field ''1,234.56'' False = float_of_string ''1234.56'' \<and>
   parse_amount_field ''1,234.56'' False = Inr (Fin (2714826150374277 / 2199023255552)) \<and>
   parse_amount_field (euro_sign @ ''1,234.56'') False = float_of_string ''1234.56'' \<and>
   parse_amount_field (pound_sign @ ''1,234.56'') False = float_of_string ''1234.56''"
  using parse_amount_field_returns [of s b] parse_amount_field_blank [of s b]
    parse_amount_field_conversion_fails [of s _ b] parse_amount_field_examples
  by blast

theorem parse_amount_field_total_witness:
  "str_strip '' '' = [] \<and> parse_amount_field '' '' True = Inr (Fin 0) \<and>
   float_of_string (strip_minus (strip_marker (normalise_amount ''12.3.4''))) = Inl ValueError \<and>
   parse_amount_field ''12.3.4'' False = Inr (Fin 0)"
proof -
  have blank: "str_strip '' '' = []"
    by code_simp
  have fails: "float_of_string (strip_minus (strip_marker (normalise_amount ''12.3.4''))) = Inl ValueError"
    by code_simp
  from parse_amount_field_total [of "'' ''" True] blank
  have r1: "parse_amount_field '' '' True = Inr (Fin 0)"
    by blast
  from parse_amount_field_total [of "''12.3.4''" False] fails
  have r2: "parse_amount_field ''12.3.4'' False = Inr (Fin 0)"
    by blast
  from blank fails r1 r2 show ?thesis
    by blast
qed

lemma parse_amount_field_marker_not_balance:
  "str_strip s \<noteq> [] \<Longrightarrow> str_contains ''dr'' (normalise_amount s) \<Longrightarrow>
   parse_amount_field s False = Inr (Fin 0)"
  by (auto simp: parse_amount_field_def Let_def)

lemma parse_amount_field_marker_balance:
  "str_strip s \<noteq> [] \<Longrightarrow> str_contains ''dr'' (normalise_amount s) \<Longrightarrow>
   float_of_string (strip_minus (strip_marker (normalise_amount s))) = Inr v \<Longrightarrow>
   parse_amount_field s True = Inr (float_neg v)"
  by (auto simp: parse_amount_field_def Let_def)

lemma parse_amount_field_minus:
  "str_strip s \<noteq> [] \<Longrightarrow> \<not> str_contains ''dr'' (normalise_amount s) \<Longrightarrow>
   startswith (normalise_amount s) ''-'' \<Longrightarrow>
   float_of_string (tl (normalise_amount s)) = Inr v \<Longrightarrow>
   parse_amount_field s b = Inr (float_neg v)"
  by (auto simp: parse_amount_field_def Let_def strip_marker_def strip_minus_def)

lemma parse_amount_field_marker_and_minus:
  assumes "str_strip s \<noteq> []" and "str_contains ''dr'' (normalise_amount s)"
    and "startswith (strip_marker (normalise_amount s)) ''-''"
    and "float_of_string (tl (strip_marker (normalise_amount s))) = Inr (Fin q)" and "0 < q"
  shows "parse_amount_field s True = Inr (Fin (- q))"
proof -
  from assms(3,4)
  have "float_of_string (strip_minus (strip_marker (normalise_amount s))) = Inr (Fin q)"
    by (simp add: strip_minus_def)
  from parse_amount_field_marker_balance [OF assms(1,2) this] assms(5) show ?thesis
    by simp
qed

lemma parse_amount_field_sign_examples:
  "parse_amount_field ''45.00 dr'' True = Inr (Fin (- 45))"
  "parse_amount_field ''45.00 dr'' False = Inr (Fin 0)"
  by code_simp+

text \<open>
  Claim C3, as amended. The overdraft marker and the sign. For a balance the marker is
  removed and the value negated: \<^verbatim>\<open>"45.00 dr"\<close> gives \<open>-45.0\<close>. For another field a text
  with the marker gives \<open>0.0\<close>. Without the marker, a leading minus sign negates the value
  of the text after it. For a balance with the marker, the value of the text without the
  marker and without one leading minus sign is negated exactly once, whether the minus
  sign is there or not. The result is negative when that text is a positive number \<open>q\<close>:
  it is \<open>- q\<close>. It is not negative for every text, since the text after the minus sign
  that is removed may itself be a negative number.
\<close>

theorem parse_amount_field_overdraft_and_sign:
  "parse_amount_field ''45.00 dr'' True = Inr (Fin (- 45)) \<and>
   parse_amount_field ''45.00 dr'' False = Inr (Fin 0) \<and>
   (str_strip s \<noteq> [] \<and> str_contains ''dr'' (normalise_amount s) \<longrightarrow>
      parse_amount_field s False = Inr (Fin 0)) \<and>
   (str_strip s \<noteq> [] \<and> str_contains ''dr'' (normalise_amount s) \<and>
    float_of_string (strip_minus (strip_marker (normalise_amount s))) = Inr v \<longrightarrow>
      parse_amount_field s True = Inr (float_neg v)) \<and>
   (str_strip s \<noteq> [] \<and> \<not> str_contains ''dr'' (normalise_amount s) \<and>
    startswith (normalise_amount s) ''-'' \<and>
    float_of_string (tl (normalise_amount s)) = Inr v \<longrightarrow>
      parse_amount_field s b = Inr (float_neg v)) \<and>
   (str_strip s \<noteq> [] \<and> str_contains ''dr'' (normalise_amount s) \<and>
    startswith (strip_marker (normalise_amount s)) ''-'' \<and>
    float_of_string (tl (strip_marker (normalise_amount s))) = Inr (Fin q) \<and> 0 < q \<longrightarrow>
      parse_amount_field s True = Inr (Fin (- q)))"
  using parse_amount_field_sign_examples parse_amount_field_marker_not_balance [of s]
    parse_amount_field_marker_balance [of s v] parse_amount_field_minus [of s v b]
    parse_amount_field_marker_and_minus [of s q]
  by blast

theorem parse_amount_field_overdraft_and_sign_witness:
  "str_strip ''-45.00 dr'' \<noteq> [] \<and> str_contains ''dr'' (normalise_amount ''-45.00 dr'') \<and>
   startswith (strip_marker (normalise_amount ''-45.00 dr'')) ''-'' \<and>
   float_of_string (tl (strip_marker (normalise_amount ''-45.00 dr''))) = Inr (Fin 45) \<and>
   float_of_string (strip_minus (strip_marker (normalise_amount ''-45.00 dr''))) = Inr (Fin 45) \<and>
   parse_amount_field ''-45.00 dr'' False = Inr (Fin 0) \<and>
   parse_amount_field ''-45.00 dr'' True = Inr (float_neg (Fin 45)) \<and>
   parse_amount_field ''-45.00 dr'' True = Inr (Fin (- 45)) \<and>
   str_strip ''-45.00'' \<noteq> [] \<and> \<not> str_contains ''dr'' (normalise_amount ''-45.00'') \<and>
   startswith (normalise_amount ''-45.00'') ''-'' \<and>
   float_of_string (tl (normalise_amount ''-45.00'')) = Inr (Fin 45) \<and>
   parse_amount_field ''-45.00'' False = Inr (float_neg (Fin 45))"
proof -
  have a1: "str_strip ''-45.00 dr'' \<noteq> []"
    by code_simp
  have a2: "str_contains ''dr'' (normalise_amount ''-45.00 dr'')"
    by code_simp
  have a3: "startswith (strip_marker (normalise_amount ''-45.00 dr'')) ''-''"
    by code_simp
  have a4: "float_of_string (tl (strip_marker (normalise_amount ''-45.00 dr''))) = Inr (Fin 45)"
    by code_simp
  have a5: "float_of_string (strip_minus (strip_marker (normalise_amount ''-45.00 dr''))) = Inr (Fin 45)"
    by code_simp
  have a6: "(0::rat) < 45"
    by simp
  have b1: "str_strip ''-45.00'' \<noteq> []"
    by code_simp
  have b2: "\<not> str_contains ''dr'' (normalise_amount ''-45.00'')"
    by code_simp
  have b3: "startswith (normalise_amount ''-45.00'') ''-''"
    by code_simp
  have b4: "float_of_string (tl (normalise_amount ''-45.00'')) = Inr (Fin 45)"
    by code_simp
  note t = parse_amount_field_overdraft_and_sign [of "''-45.00 dr''" "Fin 45" False 45]
  note u = parse_amount_field_overdraft_and_sign [of "''-45.00''" "Fin 45" False 45]
  from t a1 a2 have c1: "parse_amount_field ''-45.00 dr'' False = Inr (Fin 0)"
    by blast
  from t a1 a2 a5 have c2: "parse_amount_field ''-45.00 dr'' True = Inr (float_neg (Fin 45))"
    by blast
  from t a1 a2 a3 a4 a6 have c3: "parse_amount_field ''-45.00 dr'' True = Inr (Fin (- 45))"
    by blast
  from u b1 b2 b3 b4 have c4: "parse_amount_field ''-45.00'' False = Inr (float_neg (Fin 45))"
    by blast
  from a1 a2 a3 a4 a5 b1 b2 b3 b4 c1 c2 c3 c4 show ?thesis
    by blast
qed

text \<open>
  The claim as stated has a negative result whenever a leading minus sign and the marker
  both apply to a balance. For \<^verbatim>\<open>"--45.00 dr"\<close> the marker and one minus sign are
  removed (lines 84 and 90), \<^verbatim>\<open>float("-45.00")\<close> is \<open>-45.0\<close>, and the one negation of line
  95 gives the positive \<open>45.0\<close>.
\<close>

theorem parse_amount_field_two_minus_signs:
  "str_contains ''dr'' (normalise_amount ''--45.00 dr'') \<and>
   startswith (strip_marker (normalise_amount ''--45.00 dr'')) ''-'' \<and>
   float_of_string (strip_minus (strip_marker (normalise_amount ''--45.00 dr''))) = Inr (Fin (- 45)) \<and>
   parse_amount_field ''--45.00 dr'' True = Inr (Fin 45)"
  by code_simp

subsection \<open>The column classifier\<close>

lemma float_le_PosInf: "float_le a x \<Longrightarrow> float_le x PosInf"
  by (cases x; cases a) simp_all

lemma band_of_COLUMN_BOUNDS:
  "band_of COLUMN_BOUNDS x =
     (if float_le (Fin 250) x \<and> float_le x (Fin 324) then ''DEBIT''
      else if float_le (Fin 325) x \<and> float_le x (Fin 350) then ''CREDIT''
      else if float_le (Fin 395) x then ''BALANCE''
      else ''UNKNOWN'')"
  using float_le_PosInf [of "Fin 395" x] by (auto simp: COLUMN_BOUNDS_def)

lemma find_amount_coordinates_find:
  "find_amount_coordinates words amount =
     (case find (\<lambda>w. str_remove '','' (w_txt w) = format_2f amount) words of
        None \<Rightarrow> None
      | Some w \<Rightarrow> Some \<lparr>x0 = w_x0 w, y0 = w_y0 w, x1 = w_x1 w, y1 = w_y1 w,
                         column = band_of COLUMN_BOUNDS (w_x0 w)\<rparr>)"
  by (induction words) simp_all

lemma find_amount_coordinates_None:
  "\<forall>w \<in> set words. str_remove '','' (w_txt w) \<noteq> format_2f amount \<Longrightarrow>
   find_amount_coordinates words amount = None"
  by (induction words) simp_all

lemma find_amount_coordinates_example:
  "find_amount_coordinates
     [\<lparr>w_x0 = Fin x, w_y0 = a, w_x1 = b, w_y1 = c, w_txt = ''1,250.00'', w_rest = r\<rparr>] (Fin 1250) =
   Some \<lparr>x0 = Fin x, y0 = a, x1 = b, y1 = c, column = band_of COLUMN_BOUNDS (Fin x)\<rparr>"
proof -
  have "str_remove '','' ''1,250.00'' = format_2f (Fin 1250)"
    by code_simp
  then show ?thesis by simp
qed

lemma band_examples:
  "band_of COLUMN_BOUNDS (Fin 260) = ''DEBIT''"
  "band_of COLUMN_BOUNDS (Fin 330) = ''CREDIT''"
  "band_of COLUMN_BOUNDS (Fin 500) = ''BALANCE''"
  "band_of COLUMN_BOUNDS (Fin 10) = ''UNKNOWN''"
  by (simp_all add: band_of_COLUMN_BOUNDS)

text \<open>
  Claim C5. The classifier returns the box of the first word, in the order of the list,
  whose text without commas is the amount formatted with two decimals, with the column
  of the band that holds the left x-coordinate of that word: DEBIT from 250 to 324,
  CREDIT from 325 to 350, BALANCE from 395 on, and UNKNOWN outside the bands. It returns
  none when no word matches. A matching word at 260 is classified DEBIT, at 330 CREDIT,
  at 500 BALANCE and at 10 UNKNOWN, and keeps its coordinates.
\<close>

theorem find_amount_coordinates_bands:
  "find_amount_coordinates words amount =
     (case find (\<lambda>w. str_remove '','' (w_txt w) = format_2f amount) words of
        None \<Rightarrow> None
      | Some w \<Rightarrow>
          Some \<lparr>x0 = w_x0 w, y0 = w_y0 w, x1 = w_x1 w, y1 = w_y1 w,
                 column =
                   (if float_le (Fin 250) (w_x0 w) \<and> float_le (w_x0 w) (Fin 324) then ''DEBIT''
                    else if float_le (Fin 325) (w_x0 w) \<and> float_le (w_x0 w) (Fin 350) then ''CREDIT''
                    else if float_le (Fin 395) (w_x0 w) then ''BALANCE''
                    else ''UNKNOWN'')\<rparr>) \<and>
   ((\<forall>w \<in> set words. str_remove '','' (w_txt w) \<noteq> format_2f amount) \<longrightarrow>
      find_amount_coordinates words amount = None) \<and>
   find_amount_coordinates
     [\<lparr>w_x0 = Fin 260, w_y0 = a, w_x1 = b, w_y1 = c, w_txt = ''1,250.00'', w_rest = r\<rparr>] (Fin 1250) =
     Some \<lparr>x0 = Fin 260, y0 = a, x1 = b, y1 = c, column = ''DEBIT''\<rparr> \<and>
   find_amount_coordinates
     [\<lparr>w_x0 = Fin 330, w_y0 = a, w_x1 = b, w_y1 = c, w_txt = ''1,250.00'', w_rest = r\<rparr>] (Fin 1250) =
     Some \<lparr>x0 = Fin 330, y0 = a, x1 = b, y1 = c, column = ''CREDIT''\<rparr> \<and>
   find_amount_coordinates
     [\<lparr>w_x0 = Fin 500, w_y0 = a, w_x1 = b, w_y1 = c, w_txt = ''1,250.00'', w_rest = r\<rparr>] (Fin 1250) =
     Some \<lparr>x0 = Fin 500, y0 = a, x1 = b, y1 = c, column = ''BALANCE''\<rparr> \<and>
   find_amount_coordinates
     [\<lparr>w_x0 = Fin 10, w_y0 = a, w_x1 = b, w_y1 = c, w_txt = ''1,250.00'', w_rest = r\<rparr>] (Fin 1250) =
     Some \<lparr>x0 = Fin 10, y0 = a, x1 = b, y1 = c, column = ''UNKNOWN''\<rparr>"
proof -
  have general: "find_amount_coordinates words amount =
     (case find (\<lambda>w. str_remove '','' (w_txt w) = format_2f amount) words of
        None \<Rightarrow> None
      | Some w \<Rightarrow>
          Some \<lparr>x0 = w_x0 w, y0 = w_y0 w, x1 = w_x1 w, y1 = w_y1 w,
                 column =
                   (if float_le (Fin 250) (w_x0 w) \<and> float_le (w_x0 w) (Fin 324) then ''DEBIT''
                    else if float_le (Fin 325) (w_x0 w) \<and> float_le (w_x0 w) (Fin 350) then ''CREDIT''
                    else if float_le (Fin 395) (w_x0 w) then ''BALANCE''
                    else ''UNKNOWN'')\<rparr>)"
    unfolding find_amount_coordinates_find band_of_COLUMN_BOUNDS ..
  show ?thesis
    using general find_amount_coordinates_None [of words amount]
    by (simp only: find_amount_coordinates_example band_examples) blast
qed

theorem find_amount_coordinates_bands_witness:
  "str_remove '','' ''3.00'' \<noteq> format_2f (Fin 50) \<and>
   find_amount_coordinates
     [\<lparr>w_x0 = Fin 260, w_y0 = Fin 1, w_x1 = Fin 280, w_y1 = Fin 9, w_txt = ''3.00'', w_rest = []\<rparr>]
     (Fin 50) = None"
proof -
  have h: "str_remove '','' ''3.00'' \<noteq> format_2f (Fin 50)"
    by code_simp
  then have "\<forall>w \<in> set [\<lparr>w_x0 = Fin 260, w_y0 = Fin 1, w_x1 = Fin 280, w_y1 = Fin 9, w_txt = ''3.00'', w_rest = []\<rparr>].
      str_remove '','' (w_txt w) \<noteq> format_2f (Fin 50)"
    by simp
  with find_amount_coordinates_bands
    [of "[\<lparr>w_x0 = Fin 260, w_y0 = Fin 1, w_x1 = Fin 280, w_y1 = Fin 9, w_txt = ''3.00'', w_rest = []\<rparr>]" "Fin 50"]
  have "find_amount_coordinates
     [\<lparr>w_x0 = Fin 260, w_y0 = Fin 1, w_x1 = Fin 280, w_y1 = Fin 9, w_txt = ''3.00'', w_rest = []\<rparr>]
     (Fin 50) = None"
    by blast
  with h show ?thesis by blast
qed

subsection \<open>The date extractor\<close>

lemma py_index_in_range [simp]: "i < length xs \<Longrightarrow> py_index xs i = Inr (xs ! i)"
  by (simp add: py_index_def)

lemma initial_date_rows_Cons:
  assumes "j < length table"
  shows "initial_date_rows table (j # js) =
     (if date_cells (table ! j) then Inr (Some (composed_date (table ! j)))
      else initial_date_rows table js)"
proof (cases "3 \<le> length (table ! j)")
  case True
  then have "0 < length (table ! j)" "1 < length (table ! j)" "2 < length (table ! j)"
    by linarith+
  with assms True show ?thesis
    by (simp add: py_index_def date_cells_def composed_date_def Let_def)
next
  case False
  with assms show ?thesis
    by (simp add: py_index_def date_cells_def)
qed

lemma initial_date_rows_find:
  "\<forall>j \<in> set js. j < length table \<Longrightarrow>
   initial_date_rows table js =
     Inr (map_option (\<lambda>j. composed_date (table ! j)) (find (\<lambda>j. date_cells (table ! j)) js))"
proof (induction js)
  case Nil
  then show ?case by simp
next
  case (Cons j js)
  then show ?case by (simp add: initial_date_rows_Cons del: initial_date_rows.simps)
qed


text \<open>The row with a date that the scan from an anchor row \<open>i\<close> finds, if any.\<close>

lemma initial_date_anchor_Cons:
  assumes "i < limit" and "limit \<le> length table"
  shows "initial_date_anchor table limit (i # is) =
     (if anchor_row (table ! i) \<and>
         find (\<lambda>j. date_cells (table ! j)) [i ..< min (i + 4) limit] \<noteq> None
      then Inr (composed_date (table ! the (find (\<lambda>j. date_cells (table ! j)) [i ..< min (i + 4) limit])))
      else initial_date_anchor table limit is)"
proof -
  have rows: "initial_date_rows table [i ..< min (i + 4) limit] =
     Inr (map_option (\<lambda>j. composed_date (table ! j))
            (find (\<lambda>j. date_cells (table ! j)) [i ..< min (i + 4) limit]))"
    using assms by (intro initial_date_rows_find) auto
  from assms have i: "py_index table i = Inr (table ! i)"
    by simp
  show ?thesis
  proof (cases "find (\<lambda>j. date_cells (table ! j)) [i ..< min (i + 4) limit]")
    case None
    then show ?thesis by (simp add: i rows anchor_row_def)
  next
    case (Some j)
    then show ?thesis by (simp add: i rows anchor_row_def)
  qed
qed

lemma initial_date_anchor_find:
  "\<forall>i \<in> set is. i < limit \<Longrightarrow> limit \<le> length table \<Longrightarrow>
   initial_date_anchor table limit is =
     Inr (case find (\<lambda>i. anchor_row (table ! i) \<and>
                          find (\<lambda>j. date_cells (table ! j)) [i ..< min (i + 4) limit] \<noteq> None) is of
            None \<Rightarrow> []
          | Some i \<Rightarrow>
              composed_date (table ! the (find (\<lambda>j. date_cells (table ! j)) [i ..< min (i + 4) limit])))"
proof (induction "is")
  case Nil
  then show ?case by simp
next
  case (Cons i "is")
  then show ?case by (auto simp add: initial_date_anchor_Cons simp del: initial_date_anchor.simps)
qed

lemma extract_initial_date_find:
  "extract_initial_date table =
     Inr (case find (\<lambda>i. anchor_row (table ! i) \<and>
                          find (\<lambda>j. date_cells (table ! j))
                            [i ..< min (i + 4) (min (length table) 12)] \<noteq> None)
                 [0 ..< min (length table) 12] of
            None \<Rightarrow> []
          | Some i \<Rightarrow>
              composed_date (table ! the (find (\<lambda>j. date_cells (table ! j))
                                            [i ..< min (i + 4) (min (length table) 12)])))"
  unfolding extract_initial_date_def Let_def
  by (rule initial_date_anchor_find) auto













subsection \<open>Amounts are floats\<close>

lemma digit_cases:
  "is_digit c \<longleftrightarrow> c = CHR ''0'' \<or> c = CHR ''1'' \<or> c = CHR ''2'' \<or> c = CHR ''3'' \<or> c = CHR ''4'' \<or>
     c = CHR ''5'' \<or> c = CHR ''6'' \<or> c = CHR ''7'' \<or> c = CHR ''8'' \<or> c = CHR ''9''"
  by (simp add: is_digit_def)

lemma digit_not_space [simp]: "is_digit c \<Longrightarrow> \<not> is_c_space c"
  unfolding digit_cases by (elim disjE; simp add: is_c_space_def)

lemma digit_not_sign [simp]:
  "is_digit c \<Longrightarrow> c \<noteq> CHR ''-''"
  "is_digit c \<Longrightarrow> c \<noteq> CHR ''+''"
  "is_digit c \<Longrightarrow> c \<noteq> CHR ''_''"
  "is_digit c \<Longrightarrow> c \<noteq> CHR ''.''"
  unfolding digit_cases by (elim disjE; simp)+

lemma digit_lower [simp]: "is_digit c \<Longrightarrow> lower_char c = c"
  unfolding digit_cases by (elim disjE; simp add: lower_char_def)

lemma digit_digit_or_underscore [simp]: "is_digit c \<Longrightarrow> digit_or_underscore c"
  by (simp add: digit_or_underscore_def)

lemma point_not_digit [simp]: "\<not> digit_or_underscore CHR ''.''" "\<not> is_c_space CHR ''.''"
  by (simp_all add: digit_or_underscore_def is_digit_def is_c_space_def)

lemma digits_no_double_underscore:
  "list_all is_digit ds \<Longrightarrow> \<not> str_contains ''__'' ds"
  by (induction ds) auto

lemma digits_digitpart: "ds \<noteq> [] \<Longrightarrow> list_all is_digit ds \<Longrightarrow> digitpart ds"
proof -
  assume ne: "ds \<noteq> []" and all: "list_all is_digit ds"
  then have "is_digit (hd ds)" "is_digit (last ds)"
    by (simp_all add: list_all_iff)
  moreover from all have "list_all digit_or_underscore ds"
    by (simp add: list_all_iff)
  ultimately show ?thesis
    using ne digits_no_double_underscore [OF all] by (simp add: digitpart_def)
qed

text \<open>The shape of a text that matches \<^verbatim>\<open>AMOUNT_RE\<close>.\<close>

lemma AMOUNT_RE_match_shape:
  assumes "AMOUNT_RE_match s"
  obtains ds a b e where "s = ds @ CHR ''.'' # a # b # e" "ds \<noteq> []" "list_all is_digit ds"
    "is_digit a" "is_digit b" "e = [] \<or> e = [CHR 0x0A]"
proof -
  let ?ds = "takeWhile is_digit s" and ?r = "dropWhile is_digit s"
  have s: "s = ?ds @ ?r" by simp
  have ds: "?ds \<noteq> []" "list_all is_digit ?ds"
    using assms by (auto simp: AMOUNT_RE_match_def list_all_iff dest: set_takeWhileD)
  from assms obtain a b e where "?r = CHR ''.'' # a # b # e" "is_digit a" "is_digit b"
      "e = [] \<or> e = [CHR 0x0A]"
    by (auto simp: AMOUNT_RE_match_def split: list.splits)
  with s ds show thesis by (intro that [of ?ds a b e]) simp_all
qed

lemma parse_decimal_amount:
  assumes "ds \<noteq> []" "list_all is_digit ds" "is_digit a" "is_digit b"
  shows "\<exists>m k. parse_decimal (ds @ CHR ''.'' # [a, b]) = Some (m, k)"
proof -
  let ?t = "ds @ CHR ''.'' # [a, b]"
  from assms have all: "\<forall>c \<in> set ds. digit_or_underscore c"
    by (simp add: list_all_iff)
  then have ip: "takeWhile digit_or_underscore ?t = ds"
    by (simp add: takeWhile_append2)
  from all have r1: "dropWhile digit_or_underscore ?t = CHR ''.'' # [a, b]"
    by (simp add: dropWhile_append2)
  from assms have fp: "takeWhile digit_or_underscore [a, b] = [a, b]"
      "dropWhile digit_or_underscore [a, b] = []"
    by simp_all
  have dp: "digitpart ds" "digitpart [a, b]"
    using assms by (simp_all add: digits_digitpart)
  have "parse_decimal ?t =
          Some (int_of_digits (ds @ [a, b]), - int (length (filter is_digit [a, b])))"
    unfolding parse_decimal_def Let_def ip r1 list.sel fp using dp by simp
  then show ?thesis by blast
qed

lemma split_sign_digit: "is_digit d \<Longrightarrow> split_sign (d # r) = (False, d # r)"
  by (simp add: split_sign_def)

lemma str_lower_digit_Cons: "is_digit d \<Longrightarrow> str_lower (d # r) = d # str_lower r"
  by (simp add: str_lower_def)

lemma digit_not_letter: "is_digit d \<Longrightarrow> d \<noteq> CHR ''i'' \<and> d \<noteq> CHR ''n''"
  unfolding digit_cases by (elim disjE; simp)

lemma float_of_string_amount:
  assumes "AMOUNT_RE_match s"
  shows "\<exists>v. float_of_string s = Inr v"
proof -
  from assms obtain ds a b e where s: "s = ds @ CHR ''.'' # a # b # e" and ds: "ds \<noteq> []"
    "list_all is_digit ds" and ab: "is_digit a" "is_digit b" and e: "e = [] \<or> e = [CHR 0x0A]"
    by (rule AMOUNT_RE_match_shape)
  from ds obtain d ds' where dd: "ds = d # ds'" and d: "is_digit d"
    by (cases ds) auto
  define t where "t = ds @ CHR ''.'' # [a, b]"
  have t_Cons: "t = d # ds' @ CHR ''.'' # [a, b]"
    by (simp add: t_def dd)
  from d have "\<not> is_c_space d"
    by simp
  then have front: "dropWhile is_c_space s = s"
    by (simp add: s dd)
  have newline: "is_c_space (CHR 0x0A)"
    by (simp add: is_c_space_def)
  from ab have nb: "\<not> is_c_space b"
    by simp
  have rear: "dropWhile is_c_space (rev s) = rev t"
  proof (cases "e = []")
    case True
    with nb show ?thesis by (simp add: s t_def)
  next
    case False
    with e have "e = [CHR 0x0A]" by simp
    with nb newline show ?thesis by (simp add: s t_def)
  qed
  have strip: "rev (dropWhile is_c_space (rev (dropWhile is_c_space s))) = t"
    by (simp only: front rear rev_rev_ident)
  have sign: "split_sign t = (False, t)"
    unfolding t_Cons using d by (rule split_sign_digit)
  have lower: "str_lower t = d # str_lower (ds' @ CHR ''.'' # [a, b])"
    unfolding t_Cons using d by (rule str_lower_digit_Cons)
  from digit_not_letter [OF d] have special: "str_lower t \<noteq> ''inf''" "str_lower t \<noteq> ''infinity''"
      "str_lower t \<noteq> ''nan''"
    unfolding lower by simp_all
  from parse_decimal_amount [OF ds ab] obtain m k where pd: "parse_decimal t = Some (m, k)"
    unfolding t_def by blast
  show ?thesis
    unfolding float_of_string_def strip Let_def sign prod.case using special by (simp add: pd)
qed

subsection \<open>The row parser\<close>

text \<open>The amount scan reads the first cell that matches the pattern, and no other.\<close>

lemma amount_scan_find:
  "amount_scan cells words =
     (case find AMOUNT_RE_match cells of
        None \<Rightarrow> Inr (Fin 0, Fin 0, Fin 0, None)
      | Some cell \<Rightarrow>
          (case float_of_string cell of
             Inl e \<Rightarrow> Inl e
           | Inr amt \<Rightarrow>
               let coords = find_amount_coordinates words amt;
                   col = (case coords of Some c \<Rightarrow> column c | None \<Rightarrow> ''DEBIT'')
               in if col = ''DEBIT'' then Inr (amt, Fin 0, Fin 0, coords)
                  else if col = ''CREDIT'' then Inr (Fin 0, amt, Fin 0, coords)
                  else if col = ''BALANCE'' then Inr (Fin 0, Fin 0, amt, coords)
                  else Inr (Fin 0, Fin 0, Fin 0, coords)))"
  by (induction cells) simp_all

lemma amount_scan_returns: "\<exists>r. amount_scan cells words = Inr r"
proof (cases "find AMOUNT_RE_match cells")
  case None
  then show ?thesis by (simp add: amount_scan_find)
next
  case (Some cell)
  then have "AMOUNT_RE_match cell" by (auto simp: find_Some_iff)
  then obtain amt where "float_of_string cell = Inr amt"
    using float_of_string_amount by blast
  with Some show ?thesis by (simp add: amount_scan_find Let_def)
qed

lemma date_scan_Cons:
  assumes "i + 2 < length cells"
  shows "date_scan cells (i # is) =
     (if str_isdigit (str_strip (cells ! i)) \<and> str_strip (cells ! (i + 1)) \<in> set MONTHS \<and>
         str_isdigit (str_strip (cells ! (i + 2)))
      then Inr (str_strip (cells ! i) @ '' '' @ str_strip (cells ! (i + 1)) @ '' '' @
                str_strip (cells ! (i + 2)), details_of (drop (i + 3) cells))
      else date_scan cells is)"
proof -
  from assms have "i < length cells" "i + 1 < length cells" by linarith+
  with assms show ?thesis by (simp add: py_index_def Let_def)
qed

lemma date_scan_returns:
  "\<forall>i \<in> set is. i + 2 < length cells \<Longrightarrow> \<exists>d t. date_scan cells is = Inr (d, t)"
proof (induction "is")
  case Nil
  then show ?case by simp
next
  case (Cons i "is")
  then show ?case by (simp add: date_scan_Cons del: date_scan.simps)
qed

lemma date_scan_row: "\<exists>t. date_scan cells [0 ..< length cells - 2] = Inr (row_date cells, t)"
proof -
  have "\<forall>i \<in> set [0 ..< length cells - 2]. i + 2 < length cells" by auto
  from date_scan_returns [OF this] show ?thesis by (auto simp: row_date_def)
qed

lemma parse_transaction_row_returns: "\<exists>r. parse_transaction_row cells idx words d = Inr r"
proof -
  obtain a where "amount_scan cells words = Inr a"
    using amount_scan_returns by blast
  moreover obtain t where "date_scan cells [0 ..< length cells - 2] = Inr (row_date cells, t)"
    using date_scan_row by blast
  ultimately show ?thesis
    by (cases a) (simp add: parse_transaction_row_def Let_def)
qed

lemma parse_transaction_row_date:
  assumes "parse_transaction_row cells idx words d = Inr (Some tx)"
  shows "date tx = (if row_date cells = [] then d else row_date cells) \<and> row tx = idx"
proof -
  obtain t where t: "date_scan cells [0 ..< length cells - 2] = Inr (row_date cells, t)"
    using date_scan_row by blast
  obtain a b c co where "amount_scan cells words = Inr (a, b, c, co)"
    using amount_scan_returns by (metis prod_cases4)
  with assms t show ?thesis
    by (auto simp: parse_transaction_row_def Let_def split: if_splits)
qed

text \<open>
  The three amounts of a transaction, from the first cell that matches the pattern: the
  amount goes to the field of the column that the classifier gives, to \<^verbatim>\<open>debit\<close> when
  the classifier gives none, and to no field when the column is none of the three.
\<close>

lemma parse_transaction_row_amounts:
  assumes "parse_transaction_row cells idx words d = Inr (Some tx)"
  shows "case find AMOUNT_RE_match cells of
           None \<Rightarrow> (debit tx, credit tx, balance tx) = (Fin 0, Fin 0, Fin 0)
         | Some cell \<Rightarrow>
             \<exists>amt. float_of_string cell = Inr amt \<and>
               (debit tx, credit tx, balance tx) =
                 (case find_amount_coordinates words amt of
                    None \<Rightarrow> (amt, Fin 0, Fin 0)
                  | Some c \<Rightarrow>
                      if column c = ''DEBIT'' then (amt, Fin 0, Fin 0)
                      else if column c = ''CREDIT'' then (Fin 0, amt, Fin 0)
                      else if column c = ''BALANCE'' then (Fin 0, Fin 0, amt)
                      else (Fin 0, Fin 0, Fin 0))"
proof -
  obtain t where t: "date_scan cells [0 ..< length cells - 2] = Inr (row_date cells, t)"
    using date_scan_row by blast
  obtain a b c co where scan: "amount_scan cells words = Inr (a, b, c, co)"
    using amount_scan_returns by (metis prod_cases4)
  with assms t have tx: "debit tx = a" "credit tx = b" "balance tx = c"
    by (auto simp: parse_transaction_row_def Let_def split: if_splits)
  show ?thesis
  proof (cases "find AMOUNT_RE_match cells")
    case None
    with scan tx show ?thesis by (auto simp: amount_scan_find)
  next
    case (Some cell)
    then have "AMOUNT_RE_match cell" by (auto simp: find_Some_iff)
    then obtain amt where amt: "float_of_string cell = Inr amt"
      using float_of_string_amount by blast
    with scan tx Some show ?thesis
      by (auto simp: amount_scan_find Let_def split: option.splits if_splits)
  qed
qed

lemma parse_transaction_row_unknown_column:
  assumes "parse_transaction_row cells idx words d = Inr (Some tx)"
    and "find AMOUNT_RE_match cells = Some cell" and "float_of_string cell = Inr amt"
    and "find_amount_coordinates words amt = Some c" and "column c = ''UNKNOWN''"
  shows "debit tx = Fin 0 \<and> credit tx = Fin 0 \<and> balance tx = Fin 0"
  using parse_transaction_row_amounts [OF assms(1)] assms(2-5) by simp

lemma parse_transaction_row_no_word:
  assumes "parse_transaction_row cells idx words d = Inr (Some tx)"
    and "find AMOUNT_RE_match cells = Some cell" and "float_of_string cell = Inr amt"
    and "find_amount_coordinates words amt = None"
  shows "debit tx = amt \<and> credit tx = Fin 0 \<and> balance tx = Fin 0"
  using parse_transaction_row_amounts [OF assms(1)] assms(2-4) by simp

text \<open>
  Claim C4. A transaction takes its amounts from the first cell of the row that matches
  \<^verbatim>\<open>AMOUNT_RE\<close> and from no other cell: with no such cell the three amounts are zero,
  and else the float of that cell is in one of the three fields, or in none, and the
  other fields are zero. So at most one of \<^verbatim>\<open>debit\<close>, \<^verbatim>\<open>credit\<close> and \<^verbatim>\<open>balance\<close> is
  not zero.
\<close>

theorem parse_transaction_row_single_amount:
  assumes "parse_transaction_row cells idx words d = Inr (Some tx)"
  shows "(case find AMOUNT_RE_match cells of
            None \<Rightarrow> (debit tx, credit tx, balance tx) = (Fin 0, Fin 0, Fin 0)
          | Some cell \<Rightarrow>
              \<exists>amt. float_of_string cell = Inr amt \<and>
                (debit tx, credit tx, balance tx) \<in>
                  {(amt, Fin 0, Fin 0), (Fin 0, amt, Fin 0), (Fin 0, Fin 0, amt),
                   (Fin 0, Fin 0, Fin 0)}) \<and>
         \<not> (float_truthy (debit tx) \<and> float_truthy (credit tx)) \<and>
         \<not> (float_truthy (debit tx) \<and> float_truthy (balance tx)) \<and>
         \<not> (float_truthy (credit tx) \<and> float_truthy (balance tx))"
proof (cases "find AMOUNT_RE_match cells")
  case None
  with parse_transaction_row_amounts [OF assms] show ?thesis by simp
next
  case (Some cell)
  with parse_transaction_row_amounts [OF assms] obtain amt where amt: "float_of_string cell = Inr amt"
    and tx: "(debit tx, credit tx, balance tx) =
                 (case find_amount_coordinates words amt of
                    None \<Rightarrow> (amt, Fin 0, Fin 0)
                  | Some c \<Rightarrow>
                      if column c = ''DEBIT'' then (amt, Fin 0, Fin 0)
                      else if column c = ''CREDIT'' then (Fin 0, amt, Fin 0)
                      else if column c = ''BALANCE'' then (Fin 0, Fin 0, amt)
                      else (Fin 0, Fin 0, Fin 0))"
    by auto
  from tx have "(debit tx, credit tx, balance tx) \<in>
      {(amt, Fin 0, Fin 0), (Fin 0, amt, Fin 0), (Fin 0, Fin 0, amt), (Fin 0, Fin 0, Fin 0)}"
    by (simp split: option.splits if_splits)
  with Some amt show ?thesis by auto
qed

theorem parse_transaction_row_single_amount_witness:
  "parse_transaction_row [''Shop'', ''12.50'', ''100.00''] 4
     [\<lparr>w_x0 = Fin 330, w_y0 = Fin 100, w_x1 = Fin 350, w_y1 = Fin 110, w_txt = ''12.50'',
       w_rest = [0, 0, 0]\<rparr>] ''1 Jan 2024'' =
   Inr (Some \<lparr>row = 4, date = ''1 Jan 2024'', details = ''Shop'', debit = Fin 0,
              credit = Fin (25 / 2), balance = Fin 0, x_coord = Float (Fin 330),
              y_coord = Float (Fin 100)\<rparr>) \<and>
   find AMOUNT_RE_match [''Shop'', ''12.50'', ''100.00''] = Some ''12.50'' \<and>
   float_of_string ''12.50'' = Inr (Fin (25 / 2)) \<and>
   \<not> (float_truthy (Fin 0) \<and> float_truthy (Fin (25 / 2)))"
proof -
  let ?tx = "\<lparr>row = 4, date = ''1 Jan 2024'', details = ''Shop'', debit = Fin 0,
              credit = Fin (25 / 2), balance = Fin 0, x_coord = Float (Fin 330),
              y_coord = Float (Fin 100)\<rparr>"
  have run: "parse_transaction_row [''Shop'', ''12.50'', ''100.00''] 4
     [\<lparr>w_x0 = Fin 330, w_y0 = Fin 100, w_x1 = Fin 350, w_y1 = Fin 110, w_txt = ''12.50'',
       w_rest = [0, 0, 0]\<rparr>] ''1 Jan 2024'' = Inr (Some ?tx)"
    by code_simp
  have first: "find AMOUNT_RE_match [''Shop'', ''12.50'', ''100.00''] = Some ''12.50''"
    by code_simp
  have val: "float_of_string ''12.50'' = Inr (Fin (25 / 2))"
    by code_simp
  from parse_transaction_row_single_amount [OF run]
  have "\<not> (float_truthy (debit ?tx) \<and> float_truthy (credit ?tx))"
    by blast
  then have "\<not> (float_truthy (Fin 0) \<and> float_truthy (Fin (25 / 2)))"
    by simp
  with run first val show ?thesis by blast
qed

text \<open>
  Claim C1. When no word matches the amount, the amount is in \<^verbatim>\<open>debit\<close>
  (\<open>parse_transaction_row_no_word\<close>). When a word matches and its x-coordinate is in no
  band, the column is \<^verbatim>\<open>"UNKNOWN"\<close> and no branch of lines 144 to 149 takes the amount
  (\<open>parse_transaction_row_unknown_column\<close>): for the row \<^verbatim>\<open>["Shop", "50.00"]\<close> and the
  word \<^verbatim>\<open>"50.00"\<close> at the x-coordinate 10, the transaction has the coordinates of the
  word and a \<^verbatim>\<open>debit\<close>, \<^verbatim>\<open>credit\<close> and \<^verbatim>\<open>balance\<close> of zero.
\<close>

theorem parse_transaction_row_unknown_amount_lost:
  "find_amount_coordinates
     [\<lparr>w_x0 = Fin 10, w_y0 = Fin 100, w_x1 = Fin 30, w_y1 = Fin 110, w_txt = ''50.00'',
       w_rest = [0, 0, 0]\<rparr>] (Fin 50) =
     Some \<lparr>x0 = Fin 10, y0 = Fin 100, x1 = Fin 30, y1 = Fin 110, column = ''UNKNOWN''\<rparr> \<and>
   parse_transaction_row [''Shop'', ''50.00''] 0
     [\<lparr>w_x0 = Fin 10, w_y0 = Fin 100, w_x1 = Fin 30, w_y1 = Fin 110, w_txt = ''50.00'',
       w_rest = [0, 0, 0]\<rparr>] '''' =
     Inr (Some \<lparr>row = 0, date = '''', details = ''Shop'', debit = Fin 0, credit = Fin 0,
                balance = Fin 0, x_coord = Float (Fin 10), y_coord = Float (Fin 100)\<rparr>) \<and>
   parse_transaction_row [''Shop'', ''50.00''] 0 [] '''' =
     Inr (Some \<lparr>row = 0, date = '''', details = ''Shop'', debit = Fin 50, credit = Fin 0,
                balance = Fin 0, x_coord = Str '''', y_coord = Str ''''\<rparr>)"
  by code_simp

subsection \<open>The page assembler never raises\<close>

lemma skip_blank_rows_bounds:
  "\<exists>k. skip_blank_rows table idx = Inr k \<and> idx \<le> k \<and> k \<le> max idx (length table)"
proof (induction table idx rule: skip_blank_rows.induct)
  case (1 table idx)
  show ?case
  proof (cases "idx < length table")
    case False
    then show ?thesis by simp
  next
    case True
    then have i: "py_index table idx = Inr (table ! idx)" by simp
    show ?thesis
    proof (cases "list_ex (\<lambda>cell. cell \<noteq> []) (table ! idx)")
      case True
      with \<open>idx < length table\<close> i show ?thesis by simp
    next
      case False
      with 1 [OF \<open>idx < length table\<close> i False] obtain k where
        "skip_blank_rows table (idx + 1) = Inr k" "idx + 1 \<le> k" "k \<le> max (idx + 1) (length table)"
        by blast
      with \<open>idx < length table\<close> i False show ?thesis
        by (subst skip_blank_rows.simps) auto
    qed
  qed
qed

lemma start_index_scan_bounds:
  "\<forall>(i, r) \<in> set rows. i < n \<Longrightarrow>
   \<exists>k. start_index_scan table rows = Inr k \<and> k \<le> max (length table) (n + 2)"
proof (induction rows)
  case Nil
  then show ?case by simp
next
  case (Cons ir rows)
  obtain i r where ir: "ir = (i, r)" by (cases ir)
  with Cons.prems have i: "i < n" by simp
  from skip_blank_rows_bounds [of table "i + 3"] obtain k where
    "skip_blank_rows table (i + 3) = Inr k" "k \<le> max (i + 3) (length table)"
    by blast
  moreover from this i have "k \<le> max (length table) (n + 2)" by linarith
  ultimately show ?case
    using Cons ir by (auto simp: Let_def)
qed

lemma enumerate_from_index: "(i, r) \<in> set (enumerate_from start xs) \<Longrightarrow> start \<le> i \<and> i < start + length xs"
  by (auto simp: enumerate_from_def dest: set_zip_leftD)

lemma find_transaction_start_index_bounds:
  "\<exists>k. find_transaction_start_index table = Inr k \<and>
       k \<le> max (length table) (min (length table) 12 + 2)"
proof -
  have "\<forall>(i, r) \<in> set (enumerate_from 0 (take 12 table)). i < min (length table) 12"
    by (auto dest: enumerate_from_index)
  from start_index_scan_bounds [OF this] show ?thesis
    by (simp add: find_transaction_start_index_def)
qed

lemma tx_loop_returns: "\<exists>out. tx_loop words current_date txs rows = Inr out"
proof (induction rows arbitrary: current_date txs)
  case Nil
  then show ?case by simp
next
  case (Cons ir rows)
  obtain idx raw_row where ir: "ir = (idx, raw_row)" by (cases ir)
  obtain r where r: "parse_transaction_row (map str_strip raw_row) (int idx) words current_date = Inr r"
    using parse_transaction_row_returns by blast
  show ?case
  proof (cases r)
    case None
    with r ir Cons show ?thesis by simp
  next
    case (Some tx)
    with r ir Cons show ?thesis by simp
  qed
qed

lemma extract_initial_date_returns: "\<exists>d. extract_initial_date table = Inr d"
  by (simp add: extract_initial_date_find)

lemma initial_date_of_returns: "\<exists>d. initial_date_of table pg = Inr d"
  using extract_initial_date_returns [of table] by (auto simp: initial_date_of_def)

lemma clean_page_transactions_returns:
  "\<exists>txs. clean_page_transactions table page_num pg words = Inr txs"
proof -
  obtain d where "initial_date_of table pg = Inr d"
    using initial_date_of_returns by blast
  moreover obtain k where "find_transaction_start_index table = Inr k"
    using find_transaction_start_index_bounds by blast
  ultimately show ?thesis
    using tx_loop_returns by (simp add: clean_page_transactions_def)
qed





subsection \<open>The carried date\<close>

lemma tx_loop_step:
  assumes "parse_transaction_row (map str_strip raw_row) (int idx) words current_date = Inr r"
  shows "tx_loop words current_date txs ((idx, raw_row) # rest) =
     (if \<not> list_ex (\<lambda>cell. str_strip cell \<noteq> []) raw_row then tx_loop words current_date txs rest
      else case r of
             None \<Rightarrow> tx_loop words current_date txs rest
           | Some tx \<Rightarrow>
               if date tx \<noteq> [] \<and> date tx \<noteq> current_date
               then tx_loop words (date tx) (txs @ [tx]) rest
               else tx_loop words current_date (txs @ [tx\<lparr>date := current_date\<rparr>]) rest)"
  using assms by (simp split: option.splits)

lemma tx_loop_carried:
  assumes "tx_loop words current_date txs rows = Inr out"
    and "\<forall>(idx, raw_row) \<in> set rows. own (int idx) = row_date (map str_strip raw_row)"
  shows "\<exists>new. out = txs @ new \<and> dates_carried own current_date new \<and>
               (current_date \<noteq> [] \<longrightarrow> (\<forall>tx \<in> set new. date tx \<noteq> []))"
  using assms
proof (induction rows arbitrary: current_date txs)
  case Nil
  then show ?case by simp
next
  case (Cons ir rows)
  obtain idx raw_row where ir: "ir = (idx, raw_row)" by (cases ir)
  let ?cells = "map str_strip raw_row"
  from Cons.prems(2) ir have own: "own (int idx) = row_date ?cells"
    and rest: "\<forall>(idx, raw_row) \<in> set rows. own (int idx) = row_date (map str_strip raw_row)"
    by simp_all
  obtain r where r: "parse_transaction_row ?cells (int idx) words current_date = Inr r"
    using parse_transaction_row_returns by blast
  note step = tx_loop_step [OF r, of txs rows]
  show ?case
  proof (cases "list_ex (\<lambda>cell. str_strip cell \<noteq> []) raw_row \<and> r \<noteq> None")
    case False
    with Cons.prems(1) ir step have "tx_loop words current_date txs rows = Inr out"
      by (auto split: option.splits)
    from Cons.IH [OF this rest] show ?thesis .
  next
    case True
    then obtain tx where tx: "r = Some tx" and nonblank: "list_ex (\<lambda>cell. str_strip cell \<noteq> []) raw_row"
      by auto
    from parse_transaction_row_date [OF r [unfolded tx]]
    have d: "date tx = (if row_date ?cells = [] then current_date else row_date ?cells)"
      and i: "row tx = int idx"
      by simp_all
    show ?thesis
    proof (cases "date tx \<noteq> [] \<and> date tx \<noteq> current_date")
      case True
      with Cons.prems(1) ir step tx nonblank
      have "tx_loop words (date tx) (txs @ [tx]) rows = Inr out"
        by simp
      from Cons.IH [OF this rest] True obtain new where new: "out = (txs @ [tx]) @ new"
        "dates_carried own (date tx) new" "\<forall>t \<in> set new. date t \<noteq> []"
        by blast
      from d i own have "date tx = (if own (row tx) = [] then current_date else own (row tx))"
        by simp
      with new True have "out = txs @ (tx # new) \<and> dates_carried own current_date (tx # new) \<and>
          (\<forall>t \<in> set (tx # new). date t \<noteq> [])"
        by simp
      then show ?thesis by blast
    next
      case False
      let ?tx = "tx\<lparr>date := current_date\<rparr>"
      from False Cons.prems(1) ir step tx nonblank
      have "tx_loop words current_date (txs @ [?tx]) rows = Inr out"
        by auto
      from Cons.IH [OF this rest] obtain new where new: "out = (txs @ [?tx]) @ new"
        "dates_carried own current_date new"
        "current_date \<noteq> [] \<longrightarrow> (\<forall>t \<in> set new. date t \<noteq> [])"
        by blast
      from False d have "row_date ?cells = [] \<or> row_date ?cells = current_date"
        by (auto split: if_splits)
      with i own have "date ?tx = (if own (row ?tx) = [] then current_date else own (row ?tx))"
        by auto
      with new have "out = txs @ (?tx # new) \<and> dates_carried own current_date (?tx # new) \<and>
          (current_date \<noteq> [] \<longrightarrow> (\<forall>t \<in> set (?tx # new). date t \<noteq> []))"
        by simp
      then show ?thesis by blast
    qed
  qed
qed

lemma enumerate_from_drop:
  assumes "(i, r) \<in> set (enumerate_from k (drop k xs))"
  shows "r = xs ! i"
proof -
  from assms obtain n where n: "n < length (drop k xs)" "[k ..< k + length (drop k xs)] ! n = i"
      "drop k xs ! n = r"
    by (auto simp: enumerate_from_def in_set_zip)
  then have "i = k + n" by simp
  with n show ?thesis by simp
qed

lemma clean_page_transactions_carried:
  assumes "clean_page_transactions table page_num pg words = Inr txs"
    and "initial_date_of table pg = Inr initial_date"
  shows "dates_carried (\<lambda>i. row_date (map str_strip (table ! nat i))) initial_date txs \<and>
         (initial_date \<noteq> [] \<longrightarrow> (\<forall>tx \<in> set txs. date tx \<noteq> []))"
proof -
  obtain k where k: "find_transaction_start_index table = Inr k"
    using find_transaction_start_index_bounds by blast
  let ?rows = "enumerate_from k (drop k table)"
  let ?own = "\<lambda>i. row_date (map str_strip (table ! nat i))"
  from assms k have run: "tx_loop words initial_date [] ?rows = Inr txs"
    by (simp add: clean_page_transactions_def)
  have "\<forall>(idx, raw_row) \<in> set ?rows. ?own (int idx) = row_date (map str_strip raw_row)"
    by (auto dest: enumerate_from_drop)
  from tx_loop_carried [OF run this] show ?thesis by simp
qed

lemma parse_transaction_row_emits:
  assumes "row_date cells \<noteq> [] \<or> details_of cells \<noteq> []"
  shows "\<exists>tx. parse_transaction_row cells idx words d = Inr (Some tx)"
proof -
  obtain t where t: "date_scan cells [0 ..< length cells - 2] = Inr (row_date cells, t)"
    using date_scan_row by blast
  obtain a b c co where "amount_scan cells words = Inr (a, b, c, co)"
    using amount_scan_returns by (metis prod_cases4)
  with assms t show ?thesis
    by (auto simp: parse_transaction_row_def Let_def)
qed

text \<open>
  The example of the specification, for every list of words, every page and so every
  initial date: the row without a date takes the date of the row before it.
\<close>

lemma carry_forward_example:
  "\<exists>t1 t2. clean_page_transactions
              [[''1'', ''Jan'', ''2024'', ''Shop'', ''50.00''], [''Coffee'', ''3.00'']]
              page_num pg words = Inr [t1, t2] \<and>
           row t1 = 0 \<and> date t1 = ''1 Jan 2024'' \<and> row t2 = 1 \<and> date t2 = ''1 Jan 2024''"
proof -
  let ?r0 = "[''1'', ''Jan'', ''2024'', ''Shop'', ''50.00'']" and ?r1 = "[''Coffee'', ''3.00'']"
  let ?T = "[?r0, ?r1]" and ?c = "''1 Jan 2024''"
  have start: "find_transaction_start_index ?T = Inr 0"
    by code_simp
  have rows: "enumerate_from 0 (drop 0 ?T) = [(0, ?r0), (1, ?r1)]"
    by code_simp
  have nonblank: "list_ex (\<lambda>cell. str_strip cell \<noteq> []) ?r0" "list_ex (\<lambda>cell. str_strip cell \<noteq> []) ?r1"
    by code_simp+
  have stripped: "map str_strip ?r0 = ?r0" "map str_strip ?r1 = ?r1"
    by code_simp+
  have rd0: "row_date ?r0 = ?c"
    by code_simp
  have rd1: "row_date ?r1 = []"
    by code_simp
  have det1: "details_of ?r1 \<noteq> []"
    by code_simp
  obtain d where d: "initial_date_of ?T pg = Inr d"
    using initial_date_of_returns by blast
  obtain tx0 where p0: "parse_transaction_row ?r0 0 words d = Inr (Some tx0)"
    using parse_transaction_row_emits [of ?r0 0 words d] rd0 by auto
  from parse_transaction_row_date [OF p0] rd0 have tx0: "date tx0 = ?c" "row tx0 = 0"
    by simp_all
  define t1 where "t1 = (if date tx0 \<noteq> d then tx0 else tx0\<lparr>date := d\<rparr>)"
  from tx0 have t1: "date t1 = ?c" "row t1 = 0"
    by (auto simp: t1_def)
  from p0 have "parse_transaction_row (map str_strip ?r0) (int 0) words d = Inr (Some tx0)"
    by (simp only: stripped) simp
  note s0 = tx_loop_step [OF this, of "[]" "[(1, ?r1)]"]
  have step0: "tx_loop words d [] [(0, ?r0), (1, ?r1)] = tx_loop words ?c [t1] [(1, ?r1)]"
    unfolding s0 using nonblank(1) tx0 by (auto simp: t1_def simp del: tx_loop.simps)
  obtain tx1 where p1: "parse_transaction_row ?r1 1 words ?c = Inr (Some tx1)"
    using parse_transaction_row_emits [of ?r1 1 words ?c] det1 by auto
  from parse_transaction_row_date [OF p1] rd1 have tx1: "date tx1 = ?c" "row tx1 = 1"
    by simp_all
  from p1 have "parse_transaction_row (map str_strip ?r1) (int 1) words ?c = Inr (Some tx1)"
    by (simp only: stripped) simp
  note s1 = tx_loop_step [OF this, of "[t1]" "[]"]
  have step1: "tx_loop words ?c [t1] [(1, ?r1)] = Inr [t1, tx1\<lparr>date := ?c\<rparr>]"
    unfolding s1 using nonblank(2) tx1 by simp
  have "clean_page_transactions ?T page_num pg words = Inr [t1, tx1\<lparr>date := ?c\<rparr>]"
    by (simp only: clean_page_transactions_def d start rows step0 step1 sum.case)
  with t1 tx1 show ?thesis by auto
qed

text \<open>
  Claim C2. In a page assembly whose initial date is not empty, every transaction has a
  date that is not empty. The dates are carried forward: a transaction has the date of
  its own row when the row holds one, and else the date of the transaction before it
  (the initial date for the first transaction); no date comes from a later row. For the
  two rows of the example, \<^verbatim>\<open>("1","Jan","2024","Shop","50.00")\<close> and then
  \<^verbatim>\<open>("Coffee","3.00")\<close>, both transactions have the date \<^verbatim>\<open>"1 Jan 2024"\<close>, whatever the
  words and the initial date are.
\<close>

theorem clean_page_transactions_dates:
  "(clean_page_transactions table page_num pg words = Inr txs \<and>
    initial_date_of table pg = Inr initial_date \<longrightarrow>
      (initial_date \<noteq> [] \<longrightarrow> (\<forall>tx \<in> set txs. date tx \<noteq> [])) \<and>
      dates_carried (\<lambda>i. row_date (map str_strip (table ! nat i))) initial_date txs) \<and>
   (\<exists>t1 t2. clean_page_transactions
               [[''1'', ''Jan'', ''2024'', ''Shop'', ''50.00''], [''Coffee'', ''3.00'']]
               page_num pg words = Inr [t1, t2] \<and>
            row t1 = 0 \<and> date t1 = ''1 Jan 2024'' \<and> row t2 = 1 \<and> date t2 = ''1 Jan 2024'')"
  using clean_page_transactions_carried [of table page_num pg words txs initial_date]
    carry_forward_example [of page_num pg words]
  by blast

theorem clean_page_transactions_dates_witness:
  "initial_date_of
     [[''BALANCE FORWARD''], [''5'', ''Mar'', ''2023''], [], [''Coffee'', ''3.00''],
      [''6'', ''Mar'', ''2023'', ''Shop'', ''50.00''], [''Tea'', ''1.00'']]
     \<lparr>get_text = '''', get_words = [], find_tables = []\<rparr> = Inr ''5 Mar 2023'' \<and>
   ''5 Mar 2023'' \<noteq> [] \<and>
   clean_page_transactions
     [[''BALANCE FORWARD''], [''5'', ''Mar'', ''2023''], [], [''Coffee'', ''3.00''],
      [''6'', ''Mar'', ''2023'', ''Shop'', ''50.00''], [''Tea'', ''1.00'']]
     1 \<lparr>get_text = '''', get_words = [], find_tables = []\<rparr> [] =
     Inr [\<lparr>row = 3, date = ''5 Mar 2023'', details = ''Coffee'', debit = Fin 3, credit = Fin 0,
           balance = Fin 0, x_coord = Str '''', y_coord = Str ''''\<rparr>,
          \<lparr>row = 4, date = ''6 Mar 2023'', details = ''Shop'', debit = Fin 50, credit = Fin 0,
           balance = Fin 0, x_coord = Str '''', y_coord = Str ''''\<rparr>,
          \<lparr>row = 5, date = ''6 Mar 2023'', details = ''Tea'', debit = Fin 1, credit = Fin 0,
           balance = Fin 0, x_coord = Str '''', y_coord = Str ''''\<rparr>] \<and>
   list_all (\<lambda>tx. date tx \<noteq> [])
     [\<lparr>row = 3, date = ''5 Mar 2023'', details = ''Coffee'', debit = Fin 3, credit = Fin 0,
       balance = Fin 0, x_coord = Str '''', y_coord = Str ''''\<rparr>,
      \<lparr>row = 4, date = ''6 Mar 2023'', details = ''Shop'', debit = Fin 50, credit = Fin 0,
       balance = Fin 0, x_coord = Str '''', y_coord = Str ''''\<rparr>,
      \<lparr>row = 5, date = ''6 Mar 2023'', details = ''Tea'', debit = Fin 1, credit = Fin 0,
       balance = Fin 0, x_coord = Str '''', y_coord = Str ''''\<rparr>] \<and>
   dates_carried
     (\<lambda>i. row_date (map str_strip
        ([[''BALANCE FORWARD''], [''5'', ''Mar'', ''2023''], [], [''Coffee'', ''3.00''],
          [''6'', ''Mar'', ''2023'', ''Shop'', ''50.00''], [''Tea'', ''1.00'']] ! nat i)))
     ''5 Mar 2023''
     [\<lparr>row = 3, date = ''5 Mar 2023'', details = ''Coffee'', debit = Fin 3, credit = Fin 0,
       balance = Fin 0, x_coord = Str '''', y_coord = Str ''''\<rparr>,
      \<lparr>row = 4, date = ''6 Mar 2023'', details = ''Shop'', debit = Fin 50, credit = Fin 0,
       balance = Fin 0, x_coord = Str '''', y_coord = Str ''''\<rparr>,
      \<lparr>row = 5, date = ''6 Mar 2023'', details = ''Tea'', debit = Fin 1, credit = Fin 0,
       balance = Fin 0, x_coord = Str '''', y_coord = Str ''''\<rparr>]"
proof -
  let ?T = "[[''BALANCE FORWARD''], [''5'', ''Mar'', ''2023''], [], [''Coffee'', ''3.00''],
      [''6'', ''Mar'', ''2023'', ''Shop'', ''50.00''], [''Tea'', ''1.00'']]"
  let ?pg = "\<lparr>get_text = '''', get_words = [], find_tables = []\<rparr>"
  let ?txs = "[\<lparr>row = 3, date = ''5 Mar 2023'', details = ''Coffee'', debit = Fin 3, credit = Fin 0,
           balance = Fin 0, x_coord = Str '''', y_coord = Str ''''\<rparr>,
          \<lparr>row = 4, date = ''6 Mar 2023'', details = ''Shop'', debit = Fin 50, credit = Fin 0,
           balance = Fin 0, x_coord = Str '''', y_coord = Str ''''\<rparr>,
          \<lparr>row = 5, date = ''6 Mar 2023'', details = ''Tea'', debit = Fin 1, credit = Fin 0,
           balance = Fin 0, x_coord = Str '''', y_coord = Str ''''\<rparr>]"
  have initial: "initial_date_of ?T ?pg = Inr ''5 Mar 2023''"
    by code_simp
  have nonempty: "''5 Mar 2023'' \<noteq> []"
    by simp
  have run: "clean_page_transactions ?T 1 ?pg [] = Inr ?txs"
    by code_simp
  from clean_page_transactions_dates [of ?T 1 ?pg "[]" ?txs "''5 Mar 2023''"] initial run nonempty
  have "(\<forall>tx \<in> set ?txs. date tx \<noteq> []) \<and>
        dates_carried (\<lambda>i. row_date (map str_strip (?T ! nat i))) ''5 Mar 2023'' ?txs"
    by blast
  then have "list_all (\<lambda>tx. date tx \<noteq> []) ?txs \<and>
        dates_carried (\<lambda>i. row_date (map str_strip (?T ! nat i))) ''5 Mar 2023'' ?txs"
    unfolding list_all_iff .
  with initial nonempty run show ?thesis
    by blast
qed

subsection \<open>The export writer\<close>

text \<open>The values that \<^verbatim>\<open>writerow\<close> writes for one transaction.\<close>

lemma writerow_csv_row:
  "writerow ([''date'', ''details'', ''debit'', ''credit'', ''balance''] @
             (if debug then [''x_coord'', ''y_coord''] else [])) (csv_row debug tx) =
   Inr ([Str (date tx), Str (details tx), or_empty (debit tx), or_empty (credit tx),
         or_empty (balance tx)] @ (if debug then [x_coord tx, y_coord tx] else []))"
  by (simp add: writerow_def csv_row_def)

lemma write_rows_map:
  "write_rows ([''date'', ''details'', ''debit'', ''credit'', ''balance''] @
               (if debug then [''x_coord'', ''y_coord''] else [])) debug written txs =
   Inr (written @
        map (\<lambda>tx. [Str (date tx), Str (details tx), or_empty (debit tx), or_empty (credit tx),
                    or_empty (balance tx)] @ (if debug then [x_coord tx, y_coord tx] else []))
          txs)"
proof (induction txs arbitrary: written)
  case Nil
  then show ?case by simp
next
  case (Cons tx txs)
  show ?case
    by (simp only: write_rows.simps writerow_csv_row sum.case Cons.IH) simp
qed

lemma export_to_csv_file:
  assumes "transactions \<noteq> []"
  shows "export_to_csv transactions debug =
     Inr (Some \<lparr>header = [''date'', ''details'', ''debit'', ''credit'', ''balance''] @
                          (if debug then [''x_coord'', ''y_coord''] else []),
                records =
                  map (\<lambda>tx. [Str (date tx), Str (details tx), or_empty (debit tx),
                              or_empty (credit tx), or_empty (balance tx)] @
                             (if debug then [x_coord tx, y_coord tx] else []))
                    transactions\<rparr>)"
  using assms by (simp only: export_to_csv_def Let_def write_rows_map if_False sum.case append_Nil)

text \<open>
  Claim C8, as amended. For a list of transactions that is not empty, the export writes
  the header \<^verbatim>\<open>date, details, debit, credit, balance\<close>, followed by \<^verbatim>\<open>x_coord, y_coord\<close>
  exactly when \<^verbatim>\<open>debug\<close> is set, and one row for each transaction, in order, in which a
  \<^verbatim>\<open>debit\<close>, \<^verbatim>\<open>credit\<close> or \<^verbatim>\<open>balance\<close> that is zero is the empty string and any other
  amount is the float itself. For the empty list it writes no file, and so no header.
\<close>

theorem export_to_csv_rows:
  "(transactions \<noteq> [] \<longrightarrow>
      export_to_csv transactions debug =
        Inr (Some \<lparr>header = [''date'', ''details'', ''debit'', ''credit'', ''balance''] @
                             (if debug then [''x_coord'', ''y_coord''] else []),
                   records =
                     map (\<lambda>tx. [Str (date tx), Str (details tx),
                                 if float_truthy (debit tx) then Float (debit tx) else Str '''',
                                 if float_truthy (credit tx) then Float (credit tx) else Str '''',
                                 if float_truthy (balance tx) then Float (balance tx) else Str ''''] @
                                (if debug then [x_coord tx, y_coord tx] else []))
                       transactions\<rparr>)) \<and>
   export_to_csv [] debug = Inr None"
proof -
  have "export_to_csv [] debug = Inr None"
    by (simp add: export_to_csv_def)
  with export_to_csv_file [of transactions debug] show ?thesis
    by (simp add: or_empty_def)
qed

theorem export_to_csv_rows_witness:
  "[\<lparr>row = 3, date = ''5 Mar 2023'', details = ''Coffee'', debit = Fin 3, credit = Fin 0,
      balance = NegZero, x_coord = Float (Fin 260), y_coord = Float (Fin 100)\<rparr>] \<noteq> [] \<and>
   export_to_csv
     [\<lparr>row = 3, date = ''5 Mar 2023'', details = ''Coffee'', debit = Fin 3, credit = Fin 0,
       balance = NegZero, x_coord = Float (Fin 260), y_coord = Float (Fin 100)\<rparr>] False =
     Inr (Some \<lparr>header = [''date'', ''details'', ''debit'', ''credit'', ''balance''],
                records = [[Str ''5 Mar 2023'', Str ''Coffee'', Float (Fin 3), Str '''', Str '''']]\<rparr>) \<and>
   export_to_csv
     [\<lparr>row = 3, date = ''5 Mar 2023'', details = ''Coffee'', debit = Fin 3, credit = Fin 0,
       balance = NegZero, x_coord = Float (Fin 260), y_coord = Float (Fin 100)\<rparr>] True =
     Inr (Some \<lparr>header = [''date'', ''details'', ''debit'', ''credit'', ''balance'', ''x_coord'',
                          ''y_coord''],
                records = [[Str ''5 Mar 2023'', Str ''Coffee'', Float (Fin 3), Str '''', Str '''',
                            Float (Fin 260), Float (Fin 100)]]\<rparr>)"
proof -
  let ?txs = "[\<lparr>row = 3, date = ''5 Mar 2023'', details = ''Coffee'', debit = Fin 3, credit = Fin 0,
      balance = NegZero, x_coord = Float (Fin 260), y_coord = Float (Fin 100)\<rparr>]"
  have ne: "?txs \<noteq> []"
    by simp
  from export_to_csv_rows [of ?txs False] ne
  have plain: "export_to_csv ?txs False =
     Inr (Some \<lparr>header = [''date'', ''details'', ''debit'', ''credit'', ''balance''],
                records = [[Str ''5 Mar 2023'', Str ''Coffee'', Float (Fin 3), Str '''', Str '''']]\<rparr>)"
    by simp
  from export_to_csv_rows [of ?txs True] ne
  have debug: "export_to_csv ?txs True =
     Inr (Some \<lparr>header = [''date'', ''details'', ''debit'', ''credit'', ''balance'', ''x_coord'',
                          ''y_coord''],
                records = [[Str ''5 Mar 2023'', Str ''Coffee'', Float (Fin 3), Str '''', Str '''',
                            Float (Fin 260), Float (Fin 100)]]\<rparr>)"
    by simp
  from ne plain debug show ?thesis
    by blast
qed

text \<open>
  The claim as stated is about every list of transactions. For the empty list the export
  returns at line 259, before a file is opened: no header is written.
\<close>

theorem export_to_csv_empty_writes_nothing:
  "export_to_csv [] False = Inr None \<and> export_to_csv [] True = Inr None"
  by (simp add: export_to_csv_def)

subsection \<open>The document handle\<close>

lemma page_loop_returns:
  "\<forall>pr \<in> set prs. \<not> isl pr \<Longrightarrow> \<exists>txs. page_loop all_txs p prs = Inr txs"
proof (induction prs arbitrary: all_txs p)
  case Nil
  then show ?case by simp
next
  case (Cons pr prs)
  then obtain pg where pg: "pr = Inr pg" by (cases pr) auto
  obtain txs where "clean_page_transactions (hd (find_tables pg)) (p + 1) pg (get_words pg) = Inr txs"
    using clean_page_transactions_returns by blast
  with Cons pg show ?case by (cases "find_tables pg") auto
qed

lemma page_loop_raises:
  "\<exists>pr \<in> set prs. isl pr \<Longrightarrow> \<exists>e. page_loop all_txs p prs = Inl e"
proof (induction prs arbitrary: all_txs p)
  case Nil
  then show ?case by simp
next
  case (Cons pr prs)
  show ?case
  proof (cases pr)
    case (Inl e)
    then show ?thesis by simp
  next
    case (Inr pg)
    obtain txs where "clean_page_transactions (hd (find_tables pg)) (p + 1) pg (get_words pg) = Inr txs"
      using clean_page_transactions_returns by blast
    with Cons Inr show ?thesis by (cases "find_tables pg") auto
  qed
qed

text \<open>
  What the call does with the document. When no page raises, it returns the transactions
  and the document is closed. When a page raises, the exception leaves the call with the
  document as it was: \<^verbatim>\<open>doc.close()\<close> is not reached.
\<close>

lemma read_pdf_and_extract_closes:
  "((\<forall>pr \<in> set (pages doc). \<not> isl pr) \<longrightarrow>
      (\<exists>txs. read_pdf_and_extract doc = (Inr txs, doc\<lparr>closed := True\<rparr>))) \<and>
   ((\<exists>pr \<in> set (pages doc). isl pr) \<longrightarrow>
      (\<exists>e. read_pdf_and_extract doc = (Inl e, doc)))"
proof (cases "\<forall>pr \<in> set (pages doc). \<not> isl pr")
  case True
  from page_loop_returns [OF this, of "[]" 0] obtain txs where "page_loop [] 0 (pages doc) = Inr txs"
    by blast
  with True show ?thesis by (auto simp: read_pdf_and_extract_def)
next
  case False
  then have "\<exists>pr \<in> set (pages doc). isl pr" by blast
  from page_loop_raises [OF this, of "[]" 0] obtain e where "page_loop [] 0 (pages doc) = Inl e"
    by blast
  with False show ?thesis by (auto simp: read_pdf_and_extract_def)
qed

lemma read_pdf_and_extract_closes_example:
  "\<not> isl (Inr \<lparr>get_text = '''', get_words = [], find_tables = [[[''Coffee'', ''3.00'']]]\<rparr> :: py_error + page) \<and>
   closed (snd (read_pdf_and_extract
     \<lparr>pages = [Inr \<lparr>get_text = '''', get_words = [], find_tables = [[[''Coffee'', ''3.00'']]]\<rparr>],
      closed = False\<rparr>)) \<and>
   isl (Inl ExternalError :: py_error + page) \<and>
   \<not> closed (snd (read_pdf_and_extract
     \<lparr>pages = [Inr \<lparr>get_text = '''', get_words = [], find_tables = [[[''Coffee'', ''3.00'']]]\<rparr>,
               Inl ExternalError],
      closed = False\<rparr>))"
proof -
  let ?pg = "\<lparr>get_text = '''', get_words = [], find_tables = [[[''Coffee'', ''3.00'']]]\<rparr>"
  let ?good = "\<lparr>pages = [Inr ?pg], closed = False\<rparr>"
  let ?bad = "\<lparr>pages = [Inr ?pg, Inl ExternalError], closed = False\<rparr>"
  have "\<forall>pr \<in> set (pages ?good). \<not> isl pr"
    by simp
  with read_pdf_and_extract_closes [of ?good]
  obtain txs where "read_pdf_and_extract ?good = (Inr txs, ?good\<lparr>closed := True\<rparr>)"
    by blast
  then have good: "closed (snd (read_pdf_and_extract ?good))"
    by simp
  have "\<exists>pr \<in> set (pages ?bad). isl pr"
    by simp
  with read_pdf_and_extract_closes [of ?bad]
  obtain e where "read_pdf_and_extract ?bad = (Inl e, ?bad)"
    by blast
  then have bad: "\<not> closed (snd (read_pdf_and_extract ?bad))"
    by simp
  from good bad show ?thesis
    by simp
qed

text \<open>
  Claim C9. The document is to be closed in every execution, also when the extraction of
  a page raises. The call closes it after the loop over the pages (line 248), with no
  \<^verbatim>\<open>try\<close> and \<^verbatim>\<open>finally\<close> around the loop, while the file of the export is opened
  by \<^verbatim>\<open>with\<close> (line 267). Here the second page raises after the first page has been
  processed: the exception leaves the call and the document stays open.
\<close>

theorem read_pdf_and_extract_leaves_open:
  "read_pdf_and_extract
     \<lparr>pages = [Inr \<lparr>get_text = '''', get_words = [], find_tables = [[[''Coffee'', ''3.00'']]]\<rparr>,
               Inl ExternalError],
      closed = False\<rparr> =
   (Inl ExternalError,
    \<lparr>pages = [Inr \<lparr>get_text = '''', get_words = [], find_tables = [[[''Coffee'', ''3.00'']]]\<rparr>,
              Inl ExternalError],
     closed = False\<rparr>)"
  by code_simp

end
